theory Spec2Isabelle
  imports Complex_Main
begin

section \<open>Values\<close>

text \<open>
  The values that \<^verbatim>\<open>pd.read_csv\<close> puts into the cells of a data frame and that
  \<^verbatim>\<open>row.to_dict()\<close> hands to the model classes: the float NaN for an empty cell,
  booleans, integers, other floats and text. A Python \<^verbatim>\<open>str\<close> is a \<open>string\<close>
  here, one \<open>char\<close> standing for one code point.
\<close>

datatype pyfloat = NaN | PosInf | NegInf | Finite rat

datatype pyval = PNone | PBool bool | PInt int | PFloat pyfloat | PStr string

type_synonym pydict = "string \<rightharpoonup> pyval"

text \<open>
  Three library routines are not modelled and are taken as parameters: the \<^verbatim>\<open>repr\<close> of
  a finite float that is zero, not a whole number, or not below \<open>2 ^ 53\<close> in size (the
  other floats are written out in \<open>py_str\<close>), and pydantic's lax parsing of an integer
  and of a boolean from text.
\<close>

record pylib =
  float_repr :: "rat \<Rightarrow> string"
  str_as_int :: "string \<Rightarrow> int option"
  str_as_bool :: "string \<Rightarrow> bool option"

text \<open>
  \<^verbatim>\<open>str(v)\<close>. An integer gives its decimal digits, with a minus sign when negative. A
  float that is a whole number other than zero and below \<open>2 ^ 53\<close> in size gives the
  digits of that number followed by \<^verbatim>\<open>.0\<close>, as in \<^verbatim>\<open>str(300121.0) == '300121.0'\<close>.
\<close>

fun str_of_nat :: "nat \<Rightarrow> string" where
  "str_of_nat n =
     (if n < 10 then [''0123456789'' ! n]
      else str_of_nat (n div 10) @ [''0123456789'' ! (n mod 10)])"

declare str_of_nat.simps [simp del]

definition str_of_int :: "int \<Rightarrow> string" where
  "str_of_int i = (if i < 0 then CHR ''-'' # str_of_nat (nat (- i)) else str_of_nat (nat i))"

fun py_str :: "pylib \<Rightarrow> pyval \<Rightarrow> string" where
  "py_str L PNone = ''None''"
| "py_str L (PBool b) = (if b then ''True'' else ''False'')"
| "py_str L (PInt i) = str_of_int i"
| "py_str L (PFloat NaN) = ''nan''"
| "py_str L (PFloat PosInf) = ''inf''"
| "py_str L (PFloat NegInf) = ''-inf''"
| "py_str L (PFloat (Finite q)) =
     (if q = of_int \<lfloor>q\<rfloor> \<and> q \<noteq> 0 \<and> \<bar>q\<bar> < 2 ^ 53 then str_of_int \<lfloor>q\<rfloor> @ ''.0''
      else float_repr L q)"
| "py_str L (PStr s) = s"

text \<open>\<^verbatim>\<open>pd.isna(v)\<close> on a scalar.\<close>

definition isna :: "pyval \<Rightarrow> bool" where
  "isna v = (v = PNone \<or> v = PFloat NaN)"

section \<open>The model classes (models.py)\<close>

datatype PartType = PRINT | SUB_PART | MOLD | ALTERNATE | PAIR | PATTERN

fun PartType_value :: "PartType \<Rightarrow> string" where
  "PartType_value PRINT = ''P''"
| "PartType_value SUB_PART = ''B''"
| "PartType_value MOLD = ''M''"
| "PartType_value ALTERNATE = ''A''"
| "PartType_value PAIR = ''R''"
| "PartType_value PATTERN = ''T''"

definition PartType_members :: "PartType list" where
  "PartType_members = [PRINT, SUB_PART, MOLD, ALTERNATE, PAIR, PATTERN]"

datatype entity =
  PartCategory | Part | Color | Element | PartRelationship | Minifig
  | Set | Theme | Inventory | InventoryPart | InventoryMinifig | InventorySet

datatype ftype = TInt | TStr | TBool | TPartType

text \<open>
  One annotated attribute of a class. \<open>optional\<close> is \<^verbatim>\<open>Optional[...]\<close>,
  \<open>default_None\<close> is \<^verbatim>\<open>Field(default=None)\<close>; a field with no default is required.
  The \<^verbatim>\<open>Relationship\<close> attributes are not fields of the validated model and are left out.
\<close>

record field =
  fname :: string
  annotation :: ftype
  optional :: bool
  default_None :: bool
  primary_key :: bool
  foreign_key :: "string option"
  max_length :: "nat option"

definition Field :: "string \<Rightarrow> ftype \<Rightarrow> field" where
  "Field n t = \<lparr>fname = n, annotation = t, optional = False, default_None = False,
                primary_key = False, foreign_key = None, max_length = None\<rparr>"

fun URL :: "entity \<Rightarrow> string" where
  "URL PartCategory = ''https://cdn.rebrickable.com/media/downloads/part_categories.csv.gz''"
| "URL Part = ''https://cdn.rebrickable.com/media/downloads/parts.csv.gz''"
| "URL Color = ''https://cdn.rebrickable.com/media/downloads/colors.csv.gz''"
| "URL Element = ''https://cdn.rebrickable.com/media/downloads/elements.csv.gz''"
| "URL PartRelationship = ''https://cdn.rebrickable.com/media/downloads/part_relationships.csv.gz''"
| "URL Minifig = ''https://cdn.rebrickable.com/media/downloads/minifigs.csv.gz''"
| "URL Set = ''https://cdn.rebrickable.com/media/downloads/sets.csv.gz''"
| "URL Theme = ''https://cdn.rebrickable.com/media/downloads/themes.csv.gz''"
| "URL Inventory = ''https://cdn.rebrickable.com/media/downloads/inventories.csv.gz''"
| "URL InventoryPart = ''https://cdn.rebrickable.com/media/downloads/inventory_parts.csv.gz''"
| "URL InventoryMinifig = ''https://cdn.rebrickable.com/media/downloads/inventory_minifigs.csv.gz''"
| "URL InventorySet = ''https://cdn.rebrickable.com/media/downloads/inventory_sets.csv.gz''"

fun model_fields :: "entity \<Rightarrow> field list" where
  "model_fields PartCategory =
     [(Field ''id'' TInt)\<lparr>default_None := True, primary_key := True\<rparr>,
      (Field ''name'' TStr)\<lparr>max_length := Some 200\<rparr>]"
| "model_fields Part =
     [(Field ''part_num'' TStr)\<lparr>primary_key := True, max_length := Some 20\<rparr>,
      (Field ''name'' TStr)\<lparr>max_length := Some 250\<rparr>,
      (Field ''part_cat_id'' TInt)\<lparr>foreign_key := Some ''partcategory.id''\<rparr>]"
| "model_fields Color =
     [(Field ''id'' TInt)\<lparr>default_None := True, primary_key := True\<rparr>,
      (Field ''name'' TStr)\<lparr>max_length := Some 200\<rparr>,
      (Field ''rgb'' TStr)\<lparr>max_length := Some 6\<rparr>,
      Field ''is_trans'' TBool]"
| "model_fields Element =
     [(Field ''element_id'' TStr)\<lparr>primary_key := True, max_length := Some 10\<rparr>,
      (Field ''part_num'' TStr)\<lparr>foreign_key := Some ''part.part_num'', max_length := Some 20\<rparr>,
      (Field ''color_id'' TInt)\<lparr>foreign_key := Some ''color.id''\<rparr>]"
| "model_fields PartRelationship =
     [(Field ''rel_type'' TPartType)\<lparr>max_length := Some 1\<rparr>,
      (Field ''child_part_num'' TStr)\<lparr>foreign_key := Some ''part.part_num'', max_length := Some 20\<rparr>,
      (Field ''parent_part_num'' TStr)\<lparr>foreign_key := Some ''part.part_num'', max_length := Some 20\<rparr>]"
| "model_fields Minifig =
     [(Field ''fig_num'' TStr)\<lparr>primary_key := True, max_length := Some 20\<rparr>,
      (Field ''name'' TStr)\<lparr>max_length := Some 256\<rparr>,
      Field ''num_parts'' TInt]"
| "model_fields Set =
     [(Field ''set_num'' TStr)\<lparr>primary_key := True, max_length := Some 20\<rparr>,
      (Field ''name'' TStr)\<lparr>max_length := Some 256\<rparr>,
      Field ''year'' TInt,
      (Field ''theme_id'' TInt)\<lparr>foreign_key := Some ''theme.id''\<rparr>,
      Field ''num_parts'' TInt]"
| "model_fields Theme =
     [(Field ''id'' TInt)\<lparr>default_None := True, primary_key := True\<rparr>,
      (Field ''name'' TStr)\<lparr>max_length := Some 256\<rparr>,
      (Field ''parent_id'' TInt)\<lparr>optional := True, foreign_key := Some ''theme.id''\<rparr>]"
| "model_fields Inventory =
     [(Field ''id'' TInt)\<lparr>default_None := True, primary_key := True\<rparr>,
      Field ''version'' TInt,
      (Field ''set_num'' TStr)\<lparr>foreign_key := Some ''set.set_num'', max_length := Some 20\<rparr>]"
| "model_fields InventoryPart =
     [(Field ''id'' TInt)\<lparr>default_None := True, primary_key := True\<rparr>,
      (Field ''inventory_id'' TInt)\<lparr>foreign_key := Some ''inventory.id''\<rparr>,
      (Field ''part_num'' TStr)\<lparr>foreign_key := Some ''part.part_num'', max_length := Some 20\<rparr>,
      (Field ''color_id'' TInt)\<lparr>foreign_key := Some ''color.id''\<rparr>,
      Field ''quantity'' TInt,
      Field ''is_spare'' TBool]"
| "model_fields InventoryMinifig =
     [(Field ''id'' TInt)\<lparr>default_None := True, primary_key := True\<rparr>,
      (Field ''inventory_id'' TInt)\<lparr>foreign_key := Some ''inventory.id''\<rparr>,
      (Field ''fig_num'' TStr)\<lparr>foreign_key := Some ''minifig.fig_num'', max_length := Some 20\<rparr>,
      Field ''quantity'' TInt]"
| "model_fields InventorySet =
     [(Field ''inventory_id'' TInt)\<lparr>foreign_key := Some ''inventory.id'', primary_key := True\<rparr>,
      (Field ''set_num'' TStr)\<lparr>foreign_key := Some ''set.set_num'', primary_key := True,
         max_length := Some 20\<rparr>,
      Field ''quantity'' TInt]"

text \<open>\<^verbatim>\<open>__table_args__\<close>: the columns of a \<^verbatim>\<open>PrimaryKeyConstraint\<close>, where a class has one.\<close>

fun table_args :: "entity \<Rightarrow> string list option" where
  "table_args PartRelationship = Some [''rel_type'', ''child_part_num'', ''parent_part_num'']"
| "table_args _ = None"

text \<open>The table of a class is named by the class name in lower case.\<close>

fun tablename :: "entity \<Rightarrow> string" where
  "tablename PartCategory = ''partcategory''"
| "tablename Part = ''part''"
| "tablename Color = ''color''"
| "tablename Element = ''element''"
| "tablename PartRelationship = ''partrelationship''"
| "tablename Minifig = ''minifig''"
| "tablename Set = ''set''"
| "tablename Theme = ''theme''"
| "tablename Inventory = ''inventory''"
| "tablename InventoryPart = ''inventorypart''"
| "tablename InventoryMinifig = ''inventoryminifig''"
| "tablename InventorySet = ''inventoryset''"

definition ALL_MODELS :: "entity list" where
  "ALL_MODELS =
     [PartCategory, Theme, Part, Color, Set, Element, Minifig, Inventory,
      InventoryPart, InventoryMinifig, InventorySet, PartRelationship]"

subsection \<open>The foreign-key graph\<close>

text \<open>A foreign key \<^verbatim>\<open>"table.column"\<close> names its table before the dot.\<close>

definition fk_table :: "string \<Rightarrow> string" where
  "fk_table fk = takeWhile (\<lambda>c. c \<noteq> CHR ''.'') fk"

definition fk_targets :: "field \<Rightarrow> entity list" where
  "fk_targets f =
     (case foreign_key f of
        None \<Rightarrow> []
      | Some fk \<Rightarrow> filter (\<lambda>p. tablename p = fk_table fk) ALL_MODELS)"

definition referenced :: "entity \<Rightarrow> entity list" where
  "referenced m = concat (map fk_targets (model_fields m))"

text \<open>The position of a class in the load order (the length of the order if absent).\<close>

definition load_position :: "entity \<Rightarrow> nat" where
  "load_position m = length (takeWhile (\<lambda>x. x \<noteq> m) ALL_MODELS)"

section \<open>Validation of one row (\<^verbatim>\<open>cls.model_validate\<close>)\<close>

text \<open>
  The values of a validated instance: \<^verbatim>\<open>None\<close>, \<^verbatim>\<open>bool\<close>, \<^verbatim>\<open>int\<close>,
  \<^verbatim>\<open>str\<close> and the members of \<^verbatim>\<open>PartType\<close>. An instance lists its fields in the
  order of their declaration.
\<close>

datatype fval = VNone | VBool bool | VInt int | VStr string | VPartType PartType

type_synonym pyinstance = "(string \<times> fval) list"

text \<open>
  What the code can raise. \<open>RuntimeError\<close> is what Python raises for the bare
  \<^verbatim>\<open>raise\<close> of \<^verbatim>\<open>download_instances\<close>, which has no active exception to re-raise.
  \<open>ValidationError\<close> names the class and the fields that failed. The others come from
  the libraries: the HTTP client, the gzip and CSV readers, the dictionary lookup of
  \<^verbatim>\<open>convert_id\<close>, and the database.
\<close>

datatype error =
  ConnectionError
  | RuntimeError
  | ReadError
  | KeyError string
  | ValidationError entity "string list"
  | OverflowError
  | IntegrityError
  | OperationalError

text \<open>
  The validators of pydantic in its default (lax) mode, for the four annotations the
  classes use. \<open>None\<close> is a failed field. An \<^verbatim>\<open>int\<close> field takes a Python integer of
  any size and a boolean; it takes a float only when the float is a whole number strictly
  between \<open>- 2 ^ 63\<close> and \<open>2 ^ 63\<close>.
\<close>

fun validate_int :: "pylib \<Rightarrow> pyval \<Rightarrow> fval option" where
  "validate_int L (PInt i) = Some (VInt i)"
| "validate_int L (PBool b) = Some (VInt (if b then 1 else 0))"
| "validate_int L (PFloat (Finite q)) =
     (if q = of_int \<lfloor>q\<rfloor> \<and> - (2 ^ 63) < q \<and> q < 2 ^ 63 then Some (VInt \<lfloor>q\<rfloor>) else None)"
| "validate_int L (PFloat _) = None"
| "validate_int L (PStr s) = map_option VInt (str_as_int L s)"
| "validate_int L PNone = None"

fun validate_str :: "nat option \<Rightarrow> pyval \<Rightarrow> fval option" where
  "validate_str ml (PStr s) =
     (case ml of
        None \<Rightarrow> Some (VStr s)
      | Some n \<Rightarrow> if length s \<le> n then Some (VStr s) else None)"
| "validate_str ml _ = None"

fun validate_bool :: "pylib \<Rightarrow> pyval \<Rightarrow> fval option" where
  "validate_bool L (PBool b) = Some (VBool b)"
| "validate_bool L (PInt i) =
     (if i = 0 then Some (VBool False) else if i = 1 then Some (VBool True) else None)"
| "validate_bool L (PFloat (Finite q)) =
     (if q = 0 then Some (VBool False) else if q = 1 then Some (VBool True) else None)"
| "validate_bool L (PFloat _) = None"
| "validate_bool L (PStr s) = map_option VBool (str_as_bool L s)"
| "validate_bool L PNone = None"

text \<open>
  A \<^verbatim>\<open>StrEnum\<close> field takes the text that is the value of one of its members; the
  length bound of the field is then checked on the member.
\<close>

fun validate_PartType :: "nat option \<Rightarrow> pyval \<Rightarrow> fval option" where
  "validate_PartType ml (PStr s) =
     (case find (\<lambda>m. PartType_value m = s) PartType_members of
        None \<Rightarrow> None
      | Some m \<Rightarrow>
          (case ml of
             None \<Rightarrow> Some (VPartType m)
           | Some n \<Rightarrow> if length (PartType_value m) \<le> n then Some (VPartType m) else None))"
| "validate_PartType ml _ = None"

fun validate_value :: "pylib \<Rightarrow> field \<Rightarrow> pyval \<Rightarrow> fval option" where
  "validate_value L f v =
     (case annotation f of
        TInt \<Rightarrow> validate_int L v
      | TStr \<Rightarrow> validate_str (max_length f) v
      | TBool \<Rightarrow> validate_bool L v
      | TPartType \<Rightarrow> validate_PartType (max_length f) v)"

text \<open>
  One field against the dictionary: a missing key takes the default (not validated) or
  fails as required; \<^verbatim>\<open>None\<close> passes only an \<^verbatim>\<open>Optional\<close> annotation.
\<close>

definition validate_field :: "pylib \<Rightarrow> field \<Rightarrow> pydict \<Rightarrow> fval option" where
  "validate_field L f d =
     (case d (fname f) of
        None \<Rightarrow> if default_None f then Some VNone else None
      | Some v \<Rightarrow> if v = PNone \<and> optional f then Some VNone else validate_value L f v)"

text \<open>All fields are validated; the failed ones are collected in one error.\<close>

fun collect :: "(string \<times> fval option) list \<Rightarrow> string list \<times> pyinstance" where
  "collect [] = ([], [])"
| "collect ((n, None) # rs) = (n # fst (collect rs), snd (collect rs))"
| "collect ((n, Some v) # rs) = (fst (collect rs), (n, v) # snd (collect rs))"

definition validate_fields :: "pylib \<Rightarrow> entity \<Rightarrow> pydict \<Rightarrow> error + pyinstance" where
  "validate_fields L cls d =
     (case collect (map (\<lambda>f. (fname f, validate_field L f d)) (model_fields cls)) of
        ([], inst) \<Rightarrow> Inr inst
      | (n # ns, inst) \<Rightarrow> Inl (ValidationError cls (n # ns)))"

text \<open>
  \<^verbatim>\<open>Element.convert_id\<close>, the \<^verbatim>\<open>mode="before"\<close> validator:
  \<^verbatim>\<open>values["element_id"] = str(values["element_id"])\<close>.
\<close>

definition convert_id :: "pylib \<Rightarrow> pydict \<Rightarrow> error + pydict" where
  "convert_id L values =
     (case values ''element_id'' of
        None \<Rightarrow> Inl (KeyError ''element_id'')
      | Some v \<Rightarrow> Inr (values(''element_id'' \<mapsto> PStr (py_str L v))))"

fun before_validator :: "entity \<Rightarrow> pylib \<Rightarrow> pydict \<Rightarrow> error + pydict" where
  "before_validator Element L d = convert_id L d"
| "before_validator _ L d = Inr d"

definition model_validate :: "pylib \<Rightarrow> entity \<Rightarrow> pydict \<Rightarrow> error + pyinstance" where
  "model_validate L cls d =
     (case before_validator cls L d of
        Inl e \<Rightarrow> Inl e
      | Inr d' \<Rightarrow> validate_fields L cls d')"

section \<open>\<^verbatim>\<open>RebrickableModel.download_instances\<close>\<close>

text \<open>
  The response of \<^verbatim>\<open>requests.get(cls.URL, allow_redirects=True)\<close>: the last response
  after the redirects. \<^verbatim>\<open>r.ok\<close> is false exactly when \<^verbatim>\<open>raise_for_status()\<close> would
  raise, that is for the status codes 400 to 599.
\<close>

record response =
  status_code :: nat
  content :: string

definition ok :: "response \<Rightarrow> bool" where
  "ok r = (\<not> (400 \<le> status_code r \<and> status_code r < 600))"

text \<open>
  The world outside the program: what the HTTP client returns for a URL (\<open>None\<close> when it
  raises), the data frame that \<^verbatim>\<open>gzip.open\<close> and \<^verbatim>\<open>pd.read_csv\<close> read from the bytes
  (\<open>None\<close> when one of them raises), as the dictionaries \<^verbatim>\<open>row.to_dict()\<close> gives
  for its rows in the order of the file, the library routines above, and the row number
  the database picks at random when its largest one is in use (below).
\<close>

record env =
  requests_get :: "string \<Rightarrow> response option"
  read_csv :: "string \<Rightarrow> pydict list option"
  lib :: pylib
  random_rowid :: "int list \<Rightarrow> int option"

text \<open>The dictionary comprehension: a value that \<^verbatim>\<open>pd.isna\<close> holds of becomes \<^verbatim>\<open>None\<close>.\<close>

definition na_to_None :: "pydict \<Rightarrow> pydict" where
  "na_to_None row = (\<lambda>k. map_option (\<lambda>v. if \<not> isna v then v else PNone) (row k))"

text \<open>The loop over \<^verbatim>\<open>df.iterrows()\<close>, appending to \<^verbatim>\<open>models\<close>.\<close>

fun validate_rows :: "pylib \<Rightarrow> entity \<Rightarrow> pydict list \<Rightarrow> pyinstance list \<Rightarrow> error + pyinstance list" where
  "validate_rows L cls [] models = Inr models"
| "validate_rows L cls (row # rows) models =
     (case model_validate L cls (na_to_None row) of
        Inl e \<Rightarrow> Inl e
      | Inr m \<Rightarrow> validate_rows L cls rows (models @ [m]))"

definition download_instances :: "env \<Rightarrow> entity \<Rightarrow> error + pyinstance list" where
  "download_instances E cls =
     (case requests_get E (URL cls) of
        None \<Rightarrow> Inl ConnectionError
      | Some r \<Rightarrow>
          if \<not> ok r then Inl RuntimeError
          else (case read_csv E (content r) of
                  None \<Rightarrow> Inl ReadError
                | Some df \<Rightarrow> validate_rows (lib E) cls df []))"

section \<open>The destination and the session\<close>

text \<open>
  The SQLite file: the rows of each table, \<open>None\<close> for a table that does not exist.
  \<^verbatim>\<open>SQLModel.metadata.create_all(engine)\<close> creates the tables that are missing and
  leaves a table that exists, with its rows, as it is.
\<close>

type_synonym database = "entity \<Rightarrow> pyinstance list option"

definition no_tables :: database where
  "no_tables = (\<lambda>m. None)"

definition create_all :: "database \<Rightarrow> database" where
  "create_all db = (\<lambda>m. case db m of None \<Rightarrow> Some [] | Some rows \<Rightarrow> Some rows)"

text \<open>
  The primary key of a table: the columns of its \<^verbatim>\<open>PrimaryKeyConstraint\<close>, or else the
  fields declared with \<^verbatim>\<open>primary_key=True\<close>.
\<close>

definition pk_columns :: "entity \<Rightarrow> string list" where
  "pk_columns m =
     (case table_args m of
        Some cs \<Rightarrow> cs
      | None \<Rightarrow> map fname (filter primary_key (model_fields m)))"

definition pk_of :: "entity \<Rightarrow> pyinstance \<Rightarrow> fval list" where
  "pk_of m x = map (\<lambda>c. case map_of x c of None \<Rightarrow> VNone | Some v \<Rightarrow> v) (pk_columns m)"

text \<open>
  The statement of an INSERT binds every value of the instance; the driver raises
  \<open>OverflowError\<close> for an integer that does not fit in 64 bits, signed.
\<close>

definition in_int64 :: "int \<Rightarrow> bool" where
  "in_int64 i = (- (2 ^ 63) \<le> i \<and> i < 2 ^ 63)"

definition bindable :: "pyinstance \<Rightarrow> bool" where
  "bindable x = list_all (\<lambda>p. case snd p of VInt i \<Rightarrow> in_int64 i | _ \<Rightarrow> True) x"

text \<open>
  An instance whose single primary-key column is an integer column and holds
  \<^verbatim>\<open>None\<close> is inserted without it and the database numbers the row: 1 in an empty
  table, else one more than the largest number in use; when that is the largest number
  there is, \<open>2 ^ 63 - 1\<close>, the database tries positive numbers at random and the INSERT
  fails when it finds none that is free. What it finds is \<open>random_rowid\<close> of the world.
  \<^verbatim>\<open>None\<close> in any other primary-key column violates the NOT NULL constraint of the
  column.
\<close>

definition rowids :: "string \<Rightarrow> pyinstance list \<Rightarrow> int list" where
  "rowids c rows =
     concat (map (\<lambda>r. case map_of r c of Some (VInt i) \<Rightarrow> [i] | _ \<Rightarrow> []) rows)"

definition new_rowid :: "env \<Rightarrow> int list \<Rightarrow> int option" where
  "new_rowid E used =
     (case used of
        [] \<Rightarrow> Some 1
      | i # js \<Rightarrow>
          if fold max js i < 2 ^ 63 - 1 then Some (fold max js i + 1)
          else (case random_rowid E used of
                  None \<Rightarrow> None
                | Some r \<Rightarrow> if 1 \<le> r \<and> r \<le> 2 ^ 63 - 1 \<and> r \<notin> set used then Some r else None))"

definition integer_column :: "entity \<Rightarrow> string \<Rightarrow> bool" where
  "integer_column m c = list_ex (\<lambda>f. fname f = c \<and> annotation f = TInt) (model_fields m)"

definition assign_pk :: "env \<Rightarrow> entity \<Rightarrow> pyinstance list \<Rightarrow> pyinstance \<Rightarrow> error + pyinstance" where
  "assign_pk E m rows x =
     (if VNone \<notin> set (pk_of m x) then Inr x
      else (case pk_columns m of
              [c] \<Rightarrow>
                if integer_column m c \<and> map_of x c = Some VNone
                then (case new_rowid E (rowids c rows) of
                        None \<Rightarrow> Inl OperationalError
                      | Some r \<Rightarrow>
                          Inr (map (\<lambda>p. if fst p = c then (c, VInt r) else p) x))
                else Inl IntegrityError
            | _ \<Rightarrow> Inl IntegrityError))"

text \<open>
  One INSERT: the values are bound, the row gets its number where it has none, and a
  row whose primary key is already in the table is refused.
\<close>

definition insert_row :: "env \<Rightarrow> entity \<Rightarrow> pyinstance list \<Rightarrow> pyinstance \<Rightarrow> error + pyinstance list" where
  "insert_row E m rows x =
     (if \<not> bindable x then Inl OverflowError
      else (case assign_pk E m rows x of
              Inl e \<Rightarrow> Inl e
            | Inr x' \<Rightarrow>
                if pk_of m x' \<in> set (map (pk_of m) rows) then Inl IntegrityError
                else Inr (rows @ [x'])))"

text \<open>
  The flush of a commit: the pending instances are inserted one at a time in the order
  they were added; the first INSERT that fails ends the flush with its error.
\<close>

fun flush :: "env \<Rightarrow> database \<Rightarrow> (entity \<times> pyinstance) list \<Rightarrow> error + database" where
  "flush E db [] = Inr db"
| "flush E db ((m, x) # ps) =
     (case db m of
        None \<Rightarrow> Inl OperationalError
      | Some rows \<Rightarrow>
          (case insert_row E m rows x of
             Inl e \<Rightarrow> Inl e
           | Inr rows' \<Rightarrow> flush E (db(m := Some rows')) ps))"

text \<open>
  What the program does that can be observed, in order: the schema step, the request
  for the source of a class, \<^verbatim>\<open>session.add\<close> and a \<^verbatim>\<open>session.commit\<close> that
  succeeded, the last two tagged with the class the loop is at.
\<close>

datatype event = CreateAll | Fetch entity | Add entity pyinstance | Commit entity

record state =
  tables :: database
  pending :: "(entity \<times> pyinstance) list"
  trace :: "event list"

definition session_add :: "entity \<Rightarrow> pyinstance \<Rightarrow> state \<Rightarrow> state" where
  "session_add m x s = s\<lparr>pending := pending s @ [(m, x)], trace := trace s @ [Add m x]\<rparr>"

text \<open>
  \<^verbatim>\<open>session.commit()\<close>: the flush and the commit of its transaction. When the flush
  fails its transaction is rolled back, so the tables are as they were.
\<close>

definition commit :: "env \<Rightarrow> entity \<Rightarrow> state \<Rightarrow> error + state" where
  "commit E m s =
     (case flush E (tables s) (pending s) of
        Inl e \<Rightarrow> Inl e
      | Inr db \<Rightarrow> Inr (s\<lparr>tables := db, pending := [], trace := trace s @ [Commit m]\<rparr>))"

text \<open>Leaving the \<^verbatim>\<open>with Session(engine)\<close> block closes the session: what is pending is dropped.\<close>

definition close :: "state \<Rightarrow> state" where
  "close s = s\<lparr>pending := []\<rparr>"

section \<open>\<^verbatim>\<open>bootstrap\<close> (bootstrap.py)\<close>

text \<open>The inner loop: \<^verbatim>\<open>for instance in ...: session.add(instance)\<close>.\<close>

fun add_all :: "entity \<Rightarrow> pyinstance list \<Rightarrow> state \<Rightarrow> state" where
  "add_all m [] s = s"
| "add_all m (x # xs) s = add_all m xs (session_add m x s)"

text \<open>
  The outer loop over the models. An exception of \<^verbatim>\<open>download_instances\<close> or of
  \<^verbatim>\<open>session.commit\<close> ends the loop; the result is the exception raised, if any, and
  the state reached. The path is taken to be one the engine can open, so the schema step
  does not fail.
\<close>

fun load_models :: "env \<Rightarrow> entity list \<Rightarrow> state \<Rightarrow> error option \<times> state" where
  "load_models E [] s = (None, s)"
| "load_models E (model # models) s =
     (case download_instances E model of
        Inl e \<Rightarrow> (Some e, s\<lparr>trace := trace s @ [Fetch model]\<rparr>)
      | Inr instances \<Rightarrow>
          (case commit E model (add_all model instances (s\<lparr>trace := trace s @ [Fetch model]\<rparr>)) of
             Inl e \<Rightarrow> (Some e, add_all model instances (s\<lparr>trace := trace s @ [Fetch model]\<rparr>))
           | Inr s' \<Rightarrow> load_models E models s'))"

definition session_start :: "database \<Rightarrow> state" where
  "session_start db = \<lparr>tables = create_all db, pending = [], trace = [CreateAll]\<rparr>"

definition bootstrap :: "env \<Rightarrow> database \<Rightarrow> error option \<times> state" where
  "bootstrap E db =
     (case load_models E ALL_MODELS (session_start db) of
        (r, s) \<Rightarrow> (r, close s))"

text \<open>The events of one class that loads: its request, its adds, its commit.\<close>

definition instances_of :: "env \<Rightarrow> entity \<Rightarrow> pyinstance list" where
  "instances_of E m = (case download_instances E m of Inl e \<Rightarrow> [] | Inr xs \<Rightarrow> xs)"

definition unit_of_work :: "env \<Rightarrow> entity \<Rightarrow> event list" where
  "unit_of_work E m = Fetch m # map (Add m) (instances_of E m) @ [Commit m]"

section \<open>Example inputs\<close>

text \<open>
  Concrete inputs on which the properties below are run: a library whose text parsers
  accept nothing, single rows, and worlds that answer every request with one status.
\<close>

definition lib0 :: pylib where
  "lib0 = \<lparr>float_repr = (\<lambda>q. ''0.0''), str_as_int = (\<lambda>s. None), str_as_bool = (\<lambda>s. None)\<rparr>"

definition category_row :: pydict where
  "category_row = [''id'' \<mapsto> PInt 1, ''name'' \<mapsto> PStr ''Baseplates'']"



definition element_row_nan :: pydict where
  "element_row_nan =
     [''element_id'' \<mapsto> PFloat NaN, ''part_num'' \<mapsto> PStr ''3001'', ''color_id'' \<mapsto> PInt 4]"

definition env_300 :: env where
  "env_300 = \<lparr>requests_get = (\<lambda>u. Some \<lparr>status_code = 300, content = u\<rparr>),
              read_csv = (\<lambda>b. Some [category_row]), lib = lib0,
              random_rowid = (\<lambda>used. None)\<rparr>"

definition env_404 :: env where
  "env_404 = \<lparr>requests_get = (\<lambda>u. Some \<lparr>status_code = 404, content = u\<rparr>),
              read_csv = (\<lambda>b. Some [category_row]), lib = lib0,
              random_rowid = (\<lambda>used. None)\<rparr>"

definition env_600 :: env where
  "env_600 = \<lparr>requests_get = (\<lambda>u. Some \<lparr>status_code = 600, content = u\<rparr>),
              read_csv = (\<lambda>b. Some [category_row]), lib = lib0,
              random_rowid = (\<lambda>used. None)\<rparr>"

text \<open>A response in the 2xx range, the reading of "successful" that goes by the status alone.\<close>

definition is_2xx :: "response \<Rightarrow> bool" where
  "is_2xx r = (200 \<le> status_code r \<and> status_code r < 300)"

text \<open>The declaration \<^verbatim>\<open>rel_type: PartType = Field(max_length=1)\<close>.\<close>

definition rel_type_field :: field where
  "rel_type_field = (Field ''rel_type'' TPartType)\<lparr>max_length := Some 1\<rparr>"

definition relationship_row :: pydict where
  "relationship_row =
     [''rel_type'' \<mapsto> PStr ''P'', ''child_part_num'' \<mapsto> PStr ''3001pr0001'',
      ''parent_part_num'' \<mapsto> PStr ''3001'']"

definition relationship_row_bad :: pydict where
  "relationship_row_bad =
     [''rel_type'' \<mapsto> PStr ''X'', ''child_part_num'' \<mapsto> PStr ''3001pr0001'',
      ''parent_part_num'' \<mapsto> PStr ''3001'']"

definition category_row_bad :: pydict where
  "category_row_bad = [''id'' \<mapsto> PInt 2, ''name'' \<mapsto> PFloat NaN]"

definition theme_row :: pydict where
  "theme_row = [''id'' \<mapsto> PInt 1, ''name'' \<mapsto> PStr ''Technic'', ''parent_id'' \<mapsto> PFloat NaN]"

definition color_rows :: "pydict list" where
  "color_rows =
     [[''id'' \<mapsto> PInt 1, ''name'' \<mapsto> PStr ''Black'', ''rgb'' \<mapsto> PStr ''05131D'',
       ''is_trans'' \<mapsto> PBool False],
      [''id'' \<mapsto> PInt 9999, ''name'' \<mapsto> PStr ''Trans-Clear'', ''rgb'' \<mapsto> PStr ''FCFCFC'',
       ''is_trans'' \<mapsto> PBool True]]"

definition color_instances :: "pyinstance list" where
  "color_instances =
     [[(''id'', VInt 1), (''name'', VStr ''Black''), (''rgb'', VStr ''05131D''),
       (''is_trans'', VBool False)],
      [(''id'', VInt 9999), (''name'', VStr ''Trans-Clear''), (''rgb'', VStr ''FCFCFC''),
       (''is_trans'', VBool True)]]"

text \<open>
  A small catalog: every request is answered with status 200 and a body that stands
  for the file of its URL; the part categories and the themes have one row each, every
  other file has a header and no rows.
\<close>

definition catalog_csv :: "string \<Rightarrow> pydict list option" where
  "catalog_csv b =
     (if b = URL PartCategory then Some [category_row]
      else if b = URL Theme then Some [theme_row]
      else Some [])"

definition env_catalog :: env where
  "env_catalog = \<lparr>requests_get = (\<lambda>u. Some \<lparr>status_code = 200, content = u\<rparr>),
                  read_csv = catalog_csv, lib = lib0, random_rowid = (\<lambda>used. None)\<rparr>"

text \<open>The same catalog with the source of \<^verbatim>\<open>Part\<close> answering 503.\<close>

definition env_part_down :: env where
  "env_part_down =
     \<lparr>requests_get = (\<lambda>u. if u = URL Part then Some \<lparr>status_code = 503, content = []\<rparr>
                           else Some \<lparr>status_code = 200, content = u\<rparr>),
      read_csv = catalog_csv, lib = lib0, random_rowid = (\<lambda>used. None)\<rparr>"

text \<open>A world whose every file has a valid row followed by a row with an empty name.\<close>

definition env_bad_row :: env where
  "env_bad_row = \<lparr>requests_get = (\<lambda>u. Some \<lparr>status_code = 200, content = u\<rparr>),
                  read_csv = (\<lambda>b. Some [category_row, category_row_bad]), lib = lib0,
                  random_rowid = (\<lambda>used. None)\<rparr>"

definition env_colors :: env where
  "env_colors = \<lparr>requests_get = (\<lambda>u. Some \<lparr>status_code = 200, content = u\<rparr>),
                 read_csv = (\<lambda>b. Some color_rows), lib = lib0,
                 random_rowid = (\<lambda>used. None)\<rparr>"

section \<open>Derived notions for the properties of the loader\<close>

text \<open>The inserts of one batch of instances into the rows of one table, in order.\<close>

fun insert_rows :: "env \<Rightarrow> entity \<Rightarrow> pyinstance list \<Rightarrow> pyinstance list \<Rightarrow> error + pyinstance list" where
  "insert_rows E m rows [] = Inr rows"
| "insert_rows E m rows (x # xs) =
     (case insert_row E m rows x of
        Inl e \<Rightarrow> Inl e
      | Inr rows' \<Rightarrow> insert_rows E m rows' xs)"

text \<open>The events of a class at which the run ends: its request and its adds, no commit.\<close>

definition aborted_work :: "env \<Rightarrow> entity \<Rightarrow> event list" where
  "aborted_work E m = Fetch m # map (Add m) (instances_of E m)"

text \<open>
  The exception with which the loop ends at a class \<open>m\<close> whose table holds \<open>rows\<close>:
  that of \<^verbatim>\<open>download_instances\<close>, or else that of the commit; \<open>None\<close> when \<open>m\<close>
  is committed.
\<close>

definition run_error :: "env \<Rightarrow> entity \<Rightarrow> pyinstance list \<Rightarrow> error option" where
  "run_error E m rows =
     (case download_instances E m of
        Inl e \<Rightarrow> Some e
      | Inr xs \<Rightarrow> (case insert_rows E m rows xs of Inl e \<Rightarrow> Some e | Inr r \<Rightarrow> None))"

text \<open>
  The rows a table of the destination holds before a run: none when the table does not
  exist yet.
\<close>

definition rows_before :: "database \<Rightarrow> entity \<Rightarrow> pyinstance list" where
  "rows_before db k = (case db k of None \<Rightarrow> [] | Some rows \<Rightarrow> rows)"

text \<open>
  The state of the session when the loop has gone through the classes \<open>pre\<close>, a prefix
  of the load order, on the destination \<open>db\<close>: the state in which the request for the
  next class is made.
\<close>

definition state_after :: "env \<Rightarrow> database \<Rightarrow> entity list \<Rightarrow> state" where
  "state_after E db pre = snd (load_models E pre (session_start db))"

text \<open>
  The row \<open>y\<close> of the table of \<open>m\<close> is the instance \<open>x\<close> as stored: \<open>x\<close> itself when
  \<open>x\<close> has its primary key; else \<open>x\<close> with nothing changed but the primary-key column,
  which holds an integer.
\<close>

definition stored_as :: "entity \<Rightarrow> pyinstance \<Rightarrow> pyinstance \<Rightarrow> bool" where
  "stored_as m x y =
     (if VNone \<in> set (pk_of m x)
      then list_all2
             (\<lambda>p q. fst q = fst p \<and>
                (snd q = snd p \<or>
                 fst p \<in> set (pk_columns m) \<and> (case snd q of VInt i \<Rightarrow> True | _ \<Rightarrow> False)))
             x y
      else y = x)"

text \<open>A destination whose table of \<^verbatim>\<open>Part\<close> holds a row, as an earlier run left it.\<close>

definition part_row_old :: pyinstance where
  "part_row_old =
     [(''part_num'', VStr ''3001''), (''name'', VStr ''Brick 2 x 4''), (''part_cat_id'', VInt 11)]"

definition db_old_part :: database where
  "db_old_part = no_tables(Part := Some [part_row_old])"

section \<open>The load order\<close>

lemma referenced_eqs:
  "referenced PartCategory = []"
  "referenced Theme = [Theme]"
  "referenced Part = [PartCategory]"
  "referenced Color = []"
  "referenced Set = [Theme]"
  "referenced Element = [Part, Color]"
  "referenced Minifig = []"
  "referenced Inventory = [Set]"
  "referenced InventoryPart = [Inventory, Part, Color]"
  "referenced InventoryMinifig = [Inventory, Minifig]"
  "referenced InventorySet = [Inventory, Set]"
  "referenced PartRelationship = [Part, Part]"
  by (simp_all add: referenced_def fk_targets_def fk_table_def ALL_MODELS_def Field_def)

lemma load_position_eqs:
  "load_position PartCategory = 0"
  "load_position Theme = 1"
  "load_position Part = 2"
  "load_position Color = 3"
  "load_position Set = 4"
  "load_position Element = 5"
  "load_position Minifig = 6"
  "load_position Inventory = 7"
  "load_position InventoryPart = 8"
  "load_position InventoryMinifig = 9"
  "load_position InventorySet = 10"
  "load_position PartRelationship = 11"
  by (simp_all add: load_position_def ALL_MODELS_def)

lemma in_ALL_MODELS: "m \<in> set ALL_MODELS"
  by (cases m) (simp_all add: ALL_MODELS_def)

lemma distinct_ALL_MODELS: "distinct ALL_MODELS"
  by (simp add: ALL_MODELS_def)

text \<open>
  C1. \<open>ALL_MODELS\<close>, the sequence the loader iterates, holds every class once, and
  every class that a foreign key of a class \<open>m\<close> references, \<open>m\<close> itself apart, stands
  at a strictly earlier position than \<open>m\<close>. Every declared foreign key names the table
  of a class of the sequence, so no reference is left out of the graph.
\<close>

theorem load_order_topological:
  "distinct ALL_MODELS \<and> m \<in> set ALL_MODELS \<and>
   (\<forall>p \<in> set (referenced m). p \<noteq> m \<longrightarrow> load_position p < load_position m) \<and>
   (\<forall>f \<in> set (model_fields m). \<forall>fk. foreign_key f = Some fk \<longrightarrow> fk_targets f \<noteq> [])"
proof (intro conjI)
  show "distinct ALL_MODELS" by (rule distinct_ALL_MODELS)
  show "m \<in> set ALL_MODELS" by (rule in_ALL_MODELS)
  show "\<forall>p \<in> set (referenced m). p \<noteq> m \<longrightarrow> load_position p < load_position m"
    by (cases m) (simp_all add: referenced_eqs load_position_eqs)
  show "\<forall>f \<in> set (model_fields m). \<forall>fk. foreign_key f = Some fk \<longrightarrow> fk_targets f \<noteq> []"
    by (cases m) (simp_all add: fk_targets_def fk_table_def ALL_MODELS_def Field_def)
qed

theorem load_order_topological_witness:
  "Part \<in> set (referenced InventoryPart) \<and> Part \<noteq> InventoryPart \<and>
   load_position Part < load_position InventoryPart \<and>
   load_position Part = 2 \<and> load_position InventoryPart = 8"
  using load_order_topological [of InventoryPart]
  by (simp add: referenced_eqs load_position_eqs)

section \<open>Validation of a row\<close>

lemma fst_collect: "fst (collect rs) = map fst (filter (\<lambda>p. snd p = None) rs)"
  by (induction rs rule: collect.induct) simp_all

lemma validate_fields_cases:
  "validate_fields L cls d =
     (let rs = map (\<lambda>f. (fname f, validate_field L f d)) (model_fields cls)
      in if fst (collect rs) = [] then Inr (snd (collect rs))
         else Inl (ValidationError cls (fst (collect rs))))"
  by (cases "collect (map (\<lambda>f. (fname f, validate_field L f d)) (model_fields cls))")
     (auto simp: validate_fields_def Let_def split: list.splits)

lemma validate_fields_failed:
  assumes "f \<in> set (model_fields cls)" and "validate_field L f d = None"
  shows "\<exists>fs. validate_fields L cls d = Inl (ValidationError cls fs) \<and> fname f \<in> set fs"
proof -
  let ?rs = "map (\<lambda>f. (fname f, validate_field L f d)) (model_fields cls)"
  have "fname f \<in> set (fst (collect ?rs))"
    using assms by (force simp: fst_collect)
  then show ?thesis
    by (cases "collect ?rs") (auto simp: validate_fields_def split: list.splits)
qed

lemma validate_field_None_value:
  "d (fname f) = Some PNone \<Longrightarrow> \<not> optional f \<Longrightarrow> validate_field L f d = None"
  by (cases "annotation f") (simp_all add: validate_field_def)

lemma na_to_None_nan: "row k = Some (PFloat NaN) \<Longrightarrow> na_to_None row k = Some PNone"
  by (simp add: na_to_None_def isna_def)

text \<open>
  An empty cell in a column of a field that is not \<^verbatim>\<open>Optional\<close> fails the row, for
  every class and field but \<^verbatim>\<open>Element.element_id\<close>: with a \<open>ValidationError\<close> that
  names the field, or, for an \<^verbatim>\<open>Element\<close> row with no \<^verbatim>\<open>element_id\<close> column at all,
  with the \<open>KeyError\<close> of \<^verbatim>\<open>convert_id\<close>.
\<close>

lemma nan_in_required_field_rejected:
  assumes f: "f \<in> set (model_fields cls)" and nn: "\<not> optional f"
    and nan: "row (fname f) = Some (PFloat NaN)"
    and ne: "\<not> (cls = Element \<and> fname f = ''element_id'')"
  shows "(cls = Element \<and> row ''element_id'' = None \<and>
            model_validate L cls (na_to_None row) = Inl (KeyError ''element_id'')) \<or>
         (\<exists>fs. model_validate L cls (na_to_None row) = Inl (ValidationError cls fs) \<and>
               fname f \<in> set fs)"
proof (cases "cls = Element")
  case False
  have "validate_field L f (na_to_None row) = None"
    using nan nn by (intro validate_field_None_value na_to_None_nan)
  from validate_fields_failed [OF f this] False show ?thesis
    by (cases cls) (simp_all add: model_validate_def)
next
  case True
  show ?thesis
  proof (cases "row ''element_id''")
    case None
    then show ?thesis
      using True by (simp add: model_validate_def convert_id_def na_to_None_def)
  next
    case (Some v)
    let ?d = "(na_to_None row)(''element_id'' \<mapsto> PStr (py_str L (if \<not> isna v then v else PNone)))"
    have "?d (fname f) = Some PNone"
      using ne True nan by (simp add: na_to_None_nan)
    then have "validate_field L f ?d = None"
      using nn by (rule validate_field_None_value)
    from validate_fields_failed [OF f this] True Some show ?thesis
      by (simp add: model_validate_def convert_id_def na_to_None_def)
  qed
qed

text \<open>
  C2. The claim fails at \<^verbatim>\<open>Element.element_id\<close>: \<^verbatim>\<open>convert_id\<close> runs before the
  fields are validated and turns the \<^verbatim>\<open>None\<close> of an empty cell into the text
  \<^verbatim>\<open>"None"\<close>, which the \<^verbatim>\<open>str\<close> field of at most 10 characters accepts. A row with an
  empty \<^verbatim>\<open>element_id\<close> is validated, with no error, into an instance whose key is
  \<^verbatim>\<open>"None"\<close>.
\<close>

theorem element_id_nan_accepted:
  "model_validate L Element (na_to_None element_row_nan)
   = Inr [(''element_id'', VStr ''None''), (''part_num'', VStr ''3001''), (''color_id'', VInt 4)]"
  by (simp add: model_validate_def convert_id_def na_to_None_def isna_def validate_fields_def
      validate_field_def Field_def element_row_nan_def)

section \<open>The enumeration of \<^verbatim>\<open>PartRelationship\<close>\<close>

lemma find_member:
  "find (\<lambda>m. PartType_value m = PartType_value k) PartType_members = Some k"
  by (cases k) (simp_all add: PartType_members_def)

lemma find_member_None:
  "s \<notin> range PartType_value \<Longrightarrow> find (\<lambda>m. PartType_value m = s) PartType_members = None"
  by (auto simp: find_None_iff)

lemma length_member: "length (PartType_value k) = 1"
  by (cases k) simp_all

lemma range_PartType_value: "range PartType_value = {''P'', ''B'', ''M'', ''A'', ''R'', ''T''}"
proof -
  have "(UNIV :: PartType set) = {PRINT, SUB_PART, MOLD, ALTERNATE, PAIR, PATTERN}"
    using PartType.exhaust by auto
  then have "range PartType_value
      = PartType_value ` {PRINT, SUB_PART, MOLD, ALTERNATE, PAIR, PATTERN}"
    by simp
  then show ?thesis by simp
qed

lemma rel_type_field_in: "rel_type_field \<in> set (model_fields PartRelationship)"
  by (simp add: rel_type_field_def)

lemma rel_type_rejected:
  assumes "row ''rel_type'' \<notin> range (\<lambda>k. Some (PStr (PartType_value k)))"
  shows "validate_field L rel_type_field (na_to_None row) = None"
proof (cases "row ''rel_type''")
  case None
  then show ?thesis
    by (simp add: validate_field_def rel_type_field_def Field_def na_to_None_def)
next
  case (Some v)
  show ?thesis
  proof (cases v)
    case (PStr s)
    with assms Some have "s \<notin> range PartType_value" by auto
    then show ?thesis
      using Some PStr
      by (simp add: validate_field_def rel_type_field_def Field_def na_to_None_def isna_def
          find_member_None)
  qed (use Some in \<open>simp_all add: validate_field_def rel_type_field_def Field_def
         na_to_None_def isna_def\<close>)
qed

lemma rel_type_accepted:
  assumes "row ''rel_type'' = Some (PStr (PartType_value k))"
  shows "validate_field L rel_type_field (na_to_None row) = Some (VPartType k)"
  using assms
  by (simp add: validate_field_def rel_type_field_def Field_def na_to_None_def isna_def
      find_member length_member)

lemma PartRelationship_validate:
  "model_validate L PartRelationship d =
    (case (validate_field L rel_type_field d,
           validate_field L ((Field ''child_part_num'' TStr)
              \<lparr>foreign_key := Some ''part.part_num'', max_length := Some 20\<rparr>) d,
           validate_field L ((Field ''parent_part_num'' TStr)
              \<lparr>foreign_key := Some ''part.part_num'', max_length := Some 20\<rparr>) d) of
       (Some a, Some b, Some c) \<Rightarrow>
          Inr [(''rel_type'', a), (''child_part_num'', b), (''parent_part_num'', c)]
     | (a, b, c) \<Rightarrow> Inl (ValidationError PartRelationship
           ((if a = None then [''rel_type''] else [])
             @ (if b = None then [''child_part_num''] else [])
             @ (if c = None then [''parent_part_num''] else []))))"
  by (auto simp: model_validate_def validate_fields_cases rel_type_field_def Field_def
      split: option.splits)

text \<open>
  C7. A \<^verbatim>\<open>PartRelationship\<close> row whose \<^verbatim>\<open>rel_type\<close> is not the text of one of the six
  codes (another text, a number, a boolean, an empty cell, or no such column) fails
  with a \<open>ValidationError\<close> that names \<^verbatim>\<open>rel_type\<close>. A row whose \<^verbatim>\<open>rel_type\<close> is the
  code of a member \<open>k\<close> is never refused for that field, and the instance it gives
  holds \<open>k\<close>. The codes are P, B, M, A, R and T.
\<close>

theorem rel_type_closed_enum:
  "(row ''rel_type'' \<notin> range (\<lambda>k. Some (PStr (PartType_value k))) \<longrightarrow>
      (\<exists>fs. model_validate L PartRelationship (na_to_None row)
               = Inl (ValidationError PartRelationship fs) \<and> ''rel_type'' \<in> set fs)) \<and>
   (row ''rel_type'' = Some (PStr (PartType_value k)) \<longrightarrow>
      (case model_validate L PartRelationship (na_to_None row) of
         Inr x \<Rightarrow> map_of x ''rel_type'' = Some (VPartType k)
       | Inl e \<Rightarrow> \<exists>fs. e = ValidationError PartRelationship fs \<and> ''rel_type'' \<notin> set fs)) \<and>
   range PartType_value = {''P'', ''B'', ''M'', ''A'', ''R'', ''T''}"
proof (intro conjI impI)
  assume "row ''rel_type'' \<notin> range (\<lambda>k. Some (PStr (PartType_value k)))"
  then have "validate_field L rel_type_field (na_to_None row) = None"
    by (rule rel_type_rejected)
  from validate_fields_failed [OF rel_type_field_in this]
  show "\<exists>fs. model_validate L PartRelationship (na_to_None row)
               = Inl (ValidationError PartRelationship fs) \<and> ''rel_type'' \<in> set fs"
    by (simp add: model_validate_def rel_type_field_def Field_def)
next
  assume "row ''rel_type'' = Some (PStr (PartType_value k))"
  then have "validate_field L rel_type_field (na_to_None row) = Some (VPartType k)"
    by (rule rel_type_accepted)
  then show "case model_validate L PartRelationship (na_to_None row) of
         Inr x \<Rightarrow> map_of x ''rel_type'' = Some (VPartType k)
       | Inl e \<Rightarrow> \<exists>fs. e = ValidationError PartRelationship fs \<and> ''rel_type'' \<notin> set fs"
    by (simp add: PartRelationship_validate split: option.splits)
next
  show "range PartType_value = {''P'', ''B'', ''M'', ''A'', ''R'', ''T''}"
    by (rule range_PartType_value)
qed

theorem rel_type_closed_enum_witness:
  "relationship_row_bad ''rel_type'' \<notin> range (\<lambda>k. Some (PStr (PartType_value k))) \<and>
   model_validate lib0 PartRelationship (na_to_None relationship_row_bad)
     = Inl (ValidationError PartRelationship [''rel_type'']) \<and>
   relationship_row ''rel_type'' = Some (PStr (PartType_value PRINT)) \<and>
   model_validate lib0 PartRelationship (na_to_None relationship_row)
     = Inr [(''rel_type'', VPartType PRINT), (''child_part_num'', VStr ''3001pr0001''),
            (''parent_part_num'', VStr ''3001'')]"
proof -
  have bad: "relationship_row_bad ''rel_type'' \<notin> range (\<lambda>k. Some (PStr (PartType_value k)))"
  proof
    assume "relationship_row_bad ''rel_type'' \<in> range (\<lambda>k. Some (PStr (PartType_value k)))"
    then obtain k where "PartType_value k = ''X''"
      by (auto simp: relationship_row_bad_def)
    then show False by (cases k) simp_all
  qed
  have good: "relationship_row ''rel_type'' = Some (PStr (PartType_value PRINT))"
    by (simp add: relationship_row_def)
  have others:
    "validate_field lib0 ((Field ''child_part_num'' TStr)
        \<lparr>foreign_key := Some ''part.part_num'', max_length := Some 20\<rparr>) (na_to_None relationship_row_bad)
       = Some (VStr ''3001pr0001'')"
    "validate_field lib0 ((Field ''parent_part_num'' TStr)
        \<lparr>foreign_key := Some ''part.part_num'', max_length := Some 20\<rparr>) (na_to_None relationship_row_bad)
       = Some (VStr ''3001'')"
    "validate_field lib0 ((Field ''child_part_num'' TStr)
        \<lparr>foreign_key := Some ''part.part_num'', max_length := Some 20\<rparr>) (na_to_None relationship_row)
       = Some (VStr ''3001pr0001'')"
    "validate_field lib0 ((Field ''parent_part_num'' TStr)
        \<lparr>foreign_key := Some ''part.part_num'', max_length := Some 20\<rparr>) (na_to_None relationship_row)
       = Some (VStr ''3001'')"
    by (simp_all add: validate_field_def Field_def na_to_None_def isna_def
        relationship_row_def relationship_row_bad_def)
  have "model_validate lib0 PartRelationship (na_to_None relationship_row_bad)
     = Inl (ValidationError PartRelationship [''rel_type''])"
    using rel_type_closed_enum [of relationship_row_bad lib0 PRINT] bad
    by (auto simp: PartRelationship_validate others split: option.splits)
  moreover have "model_validate lib0 PartRelationship (na_to_None relationship_row)
     = Inr [(''rel_type'', VPartType PRINT), (''child_part_num'', VStr ''3001pr0001''),
            (''parent_part_num'', VStr ''3001'')]"
    using rel_type_closed_enum [of relationship_row lib0 PRINT] good
    by (auto simp: PartRelationship_validate others split: option.splits)
  ultimately show ?thesis using bad good by blast
qed
section \<open>The identifier of \<^verbatim>\<open>Element\<close>\<close>



lemma floor_300121: "\<lfloor>300121 :: rat\<rfloor> = 300121"
  by simp





section \<open>The request\<close>

lemma model_validate_error:
  "model_validate L cls d = Inl e \<Longrightarrow> (\<exists>k. e = KeyError k) \<or> (\<exists>fs. e = ValidationError cls fs)"
  by (cases cls)
     (auto simp: model_validate_def convert_id_def validate_fields_def
        split: option.splits sum.splits prod.splits list.splits)

lemma validate_rows_error:
  "validate_rows L cls rows acc = Inl e \<Longrightarrow> (\<exists>k. e = KeyError k) \<or> (\<exists>fs. e = ValidationError cls fs)"
proof (induction rows arbitrary: acc)
  case Nil
  then show ?case by simp
next
  case (Cons row rows)
  show ?case
  proof (cases "model_validate L cls (na_to_None row)")
    case (Inl e')
    with Cons.prems have "e = e'" by simp
    with Inl show ?thesis by (auto dest: model_validate_error)
  next
    case (Inr x)
    with Cons.prems have "validate_rows L cls rows (acc @ [x]) = Inl e" by simp
    then show ?thesis by (rule Cons.IH)
  qed
qed

text \<open>
  C3, as the code has it. When the HTTP client raises, its exception leaves
  \<^verbatim>\<open>download_instances\<close> and no list is returned. When it returns a last response
  \<open>r\<close>: \<^verbatim>\<open>download_instances\<close> raises at its bare \<^verbatim>\<open>raise\<close> (a \<open>RuntimeError\<close>)
  exactly when the status of \<open>r\<close> is from 400 to 599, and then returns no list; with any
  other status, in the 2xx range or not, the body of \<open>r\<close> is read and the result is that
  of reading and validating its rows.
\<close>

theorem not_ok_fails:
  "(requests_get E (URL cls) = None \<longrightarrow> download_instances E cls = Inl ConnectionError) \<and>
   (requests_get E (URL cls) = Some r \<longrightarrow>
      (download_instances E cls = Inl RuntimeError
         \<longleftrightarrow> 400 \<le> status_code r \<and> status_code r < 600) \<and>
      (\<not> (400 \<le> status_code r \<and> status_code r < 600) \<longrightarrow>
         download_instances E cls =
           (case read_csv E (content r) of
              None \<Rightarrow> Inl ReadError
            | Some df \<Rightarrow> validate_rows (lib E) cls df [])))"
proof (intro conjI impI)
  assume "requests_get E (URL cls) = None"
  then show "download_instances E cls = Inl ConnectionError"
    by (simp add: download_instances_def)
next
  assume g: "requests_get E (URL cls) = Some r"
  show "download_instances E cls = Inl RuntimeError
         \<longleftrightarrow> 400 \<le> status_code r \<and> status_code r < 600"
  proof (cases "400 \<le> status_code r \<and> status_code r < 600")
    case True
    then show ?thesis using g by (simp add: download_instances_def ok_def)
  next
    case False
    have "download_instances E cls \<noteq> Inl RuntimeError"
    proof (cases "read_csv E (content r)")
      case None
      then show ?thesis using g False by (simp add: download_instances_def ok_def)
    next
      case (Some df)
      then have "download_instances E cls = validate_rows (lib E) cls df []"
        using g False by (simp add: download_instances_def ok_def)
      then show ?thesis by (auto dest: validate_rows_error)
    qed
    with False show ?thesis by simp
  qed
next
  assume "requests_get E (URL cls) = Some r"
    and "\<not> (400 \<le> status_code r \<and> status_code r < 600)"
  then show "download_instances E cls =
           (case read_csv E (content r) of
              None \<Rightarrow> Inl ReadError
            | Some df \<Rightarrow> validate_rows (lib E) cls df [])"
    by (simp add: download_instances_def ok_def)
qed

lemma download_env_300:
  "download_instances env_300 PartCategory = Inr [[(''id'', VInt 1), (''name'', VStr ''Baseplates'')]]"
  by (simp add: env_300_def download_instances_def ok_def category_row_def model_validate_def
      validate_fields_def validate_field_def na_to_None_def isna_def Field_def)

theorem not_ok_fails_witness:
  "requests_get env_404 (URL Part) = Some \<lparr>status_code = 404, content = URL Part\<rparr> \<and>
   download_instances env_404 Part = Inl RuntimeError \<and>
   requests_get env_600 (URL PartCategory)
     = Some \<lparr>status_code = 600, content = URL PartCategory\<rparr> \<and>
   download_instances env_600 PartCategory \<noteq> Inl RuntimeError \<and>
   download_instances env_600 PartCategory
     = validate_rows lib0 PartCategory [category_row] []"
proof -
  have g4: "requests_get env_404 (URL Part) = Some \<lparr>status_code = 404, content = URL Part\<rparr>"
    by (simp add: env_404_def)
  have g6: "requests_get env_600 (URL PartCategory)
     = Some \<lparr>status_code = 600, content = URL PartCategory\<rparr>"
    by (simp add: env_600_def)
  have 1: "download_instances env_404 Part = Inl RuntimeError"
    using not_ok_fails [of env_404 Part "\<lparr>status_code = 404, content = URL Part\<rparr>"] g4
    by simp
  note t = not_ok_fails [of env_600 PartCategory
      "\<lparr>status_code = 600, content = URL PartCategory\<rparr>", THEN conjunct2, THEN mp, OF g6]
  have 2: "download_instances env_600 PartCategory \<noteq> Inl RuntimeError"
    using t [THEN conjunct1] by simp
  have 3: "download_instances env_600 PartCategory
     = validate_rows lib0 PartCategory [category_row] []"
    using t [THEN conjunct2] by (simp add: env_600_def)
  from g4 1 g6 2 3 show ?thesis by (intro conjI)
qed

text \<open>
  C3 as stated fails: a last response with status 300 is not in the 2xx range, yet
  \<^verbatim>\<open>r.ok\<close> holds of it and \<^verbatim>\<open>download_instances\<close> goes on to read its body and
  returns the instances.
\<close>

theorem non_2xx_counterexample:
  "requests_get env_300 (URL PartCategory)
     = Some \<lparr>status_code = 300, content = URL PartCategory\<rparr> \<and>
   \<not> is_2xx \<lparr>status_code = 300, content = URL PartCategory\<rparr> \<and>
   download_instances env_300 PartCategory
     = Inr [[(''id'', VInt 1), (''name'', VStr ''Baseplates'')]]"
proof (intro conjI)
  show "requests_get env_300 (URL PartCategory)
          = Some \<lparr>status_code = 300, content = URL PartCategory\<rparr>"
    by (simp add: env_300_def)
  show "\<not> is_2xx \<lparr>status_code = 300, content = URL PartCategory\<rparr>"
    by (simp add: is_2xx_def)
  show "download_instances env_300 PartCategory
          = Inr [[(''id'', VInt 1), (''name'', VStr ''Baseplates'')]]"
    by (rule download_env_300)
qed


section \<open>The rows of one source\<close>

lemma validate_rows_Inr:
  "validate_rows L cls rows acc = Inr ms \<longleftrightarrow>
     (\<exists>ms'. ms = acc @ ms' \<and> map (\<lambda>row. model_validate L cls (na_to_None row)) rows = map Inr ms')"
proof (induction rows arbitrary: acc)
  case Nil
  then show ?case by auto
next
  case (Cons row rows)
  show ?case
  proof (cases "model_validate L cls (na_to_None row)")
    case (Inl e)
    then show ?thesis by auto
  next
    case (Inr x)
    have "(\<exists>ms'. ms = (acc @ [x]) @ ms' \<and> map (\<lambda>row. model_validate L cls (na_to_None row)) rows = map Inr ms')
       \<longleftrightarrow> (\<exists>ms'. ms = acc @ ms' \<and> Inr x # map (\<lambda>row. model_validate L cls (na_to_None row)) rows = map Inr ms')"
      (is "?A \<longleftrightarrow> ?B")
    proof
      assume ?A
      then obtain ms' where "ms = acc @ (x # ms')" "map (\<lambda>row. model_validate L cls (na_to_None row)) rows = map Inr ms'"
        by auto
      then show ?B by (intro exI [of _ "x # ms'"]) simp
    next
      assume ?B
      then obtain ms' where m: "ms = acc @ ms'" "Inr x # map (\<lambda>row. model_validate L cls (na_to_None row)) rows = map Inr ms'"
        by auto
      then obtain ms'' where "ms' = x # ms''" by (cases ms') auto
      with m show ?A by (intro exI [of _ ms'']) simp
    qed
    with Inr Cons.IH [of "acc @ [x]"] show ?thesis by simp
  qed
qed

lemma validate_rows_Inl:
  "row \<in> set rows \<Longrightarrow> model_validate L cls (na_to_None row) = Inl e0 \<Longrightarrow>
   \<exists>e. validate_rows L cls rows acc = Inl e"
proof (induction rows arbitrary: acc)
  case Nil
  then show ?case by simp
next
  case (Cons a rows)
  then show ?case by (cases "model_validate L cls (na_to_None a)") auto
qed

text \<open>
  C10. When the request succeeds and the file is read into the data frame \<open>df\<close>,
  \<^verbatim>\<open>download_instances\<close> returns the list \<open>ms\<close> exactly when validating the rows of
  \<open>df\<close>, one after the other, gives the instances of \<open>ms\<close> in the same order; so
  \<open>ms\<close> has one instance per row, the i-th from the i-th row.
\<close>

theorem one_record_per_row:
  assumes "requests_get E (URL cls) = Some r" and "ok r" and "read_csv E (content r) = Some df"
  shows "(download_instances E cls = Inr ms \<longleftrightarrow>
            map (\<lambda>row. model_validate (lib E) cls (na_to_None row)) df = map Inr ms) \<and>
         (download_instances E cls = Inr ms \<longrightarrow>
            length ms = length df \<and>
            (\<forall>i < length df. model_validate (lib E) cls (na_to_None (df ! i)) = Inr (ms ! i)))"
proof -
  have dl: "download_instances E cls = validate_rows (lib E) cls df []"
    using assms by (simp add: download_instances_def)
  have iff: "download_instances E cls = Inr ms \<longleftrightarrow>
            map (\<lambda>row. model_validate (lib E) cls (na_to_None row)) df = map Inr ms"
    unfolding dl validate_rows_Inr by simp
  moreover have "length ms = length df \<and>
            (\<forall>i < length df. model_validate (lib E) cls (na_to_None (df ! i)) = Inr (ms ! i))"
    if "map (\<lambda>row. model_validate (lib E) cls (na_to_None row)) df = map Inr ms"
  proof -
    from that have len: "length df = length ms" by (metis length_map)
    moreover have "model_validate (lib E) cls (na_to_None (df ! i)) = Inr (ms ! i)" if "i < length df" for i
    proof -
      have "map (\<lambda>row. model_validate (lib E) cls (na_to_None row)) df ! i = map Inr ms ! i"
        using \<open>map _ df = map Inr ms\<close> by simp
      then show ?thesis using that len by simp
    qed
    ultimately show ?thesis by simp
  qed
  ultimately show ?thesis by blast
qed


lemma download_colors: "download_instances env_colors Color = Inr color_instances"
  by (simp add: download_instances_def env_colors_def ok_def color_rows_def color_instances_def
        model_validate_def validate_fields_def validate_field_def na_to_None_def
        isna_def Field_def)


theorem one_record_per_row_witness:
  "requests_get env_colors (URL Color) = Some \<lparr>status_code = 200, content = URL Color\<rparr> \<and>
   ok \<lparr>status_code = 200, content = URL Color\<rparr> \<and>
   read_csv env_colors (URL Color) = Some color_rows \<and>
   download_instances env_colors Color = Inr color_instances \<and>
   length color_rows = 2 \<and> length color_instances = 2 \<and>
   map (\<lambda>row. model_validate (lib env_colors) Color (na_to_None row)) color_rows =
     map Inr color_instances"
proof -
  have g: "requests_get env_colors (URL Color) = Some \<lparr>status_code = 200, content = URL Color\<rparr>"
    by (simp add: env_colors_def)
  have o: "ok \<lparr>status_code = 200, content = URL Color\<rparr>" by (simp add: ok_def)
  have c: "read_csv env_colors (content \<lparr>status_code = 200, content = URL Color\<rparr>) = Some color_rows"
    by (simp add: env_colors_def)
  have m: "map (\<lambda>row. model_validate (lib env_colors) Color (na_to_None row)) color_rows =
     map Inr color_instances"
    using one_record_per_row [OF g o c, where ms = color_instances]
    by (simp only: download_colors simp_thms)
  have l: "length color_rows = 2" "length color_instances = 2"
    by (simp_all add: color_rows_def color_instances_def)
  have c': "read_csv env_colors (URL Color) = Some color_rows"
    by (simp add: env_colors_def)
  from g o c' download_colors l m show ?thesis by (intro conjI)
qed

section \<open>The inserts of a commit\<close>

lemma create_all_rows_before: "create_all db = (\<lambda>k. Some (rows_before db k))"
  by (rule ext) (simp add: create_all_def rows_before_def split: option.splits)

lemma assign_pk_explicit: "VNone \<notin> set (pk_of m x) \<Longrightarrow> assign_pk E m rows x = Inr x"
  by (simp add: assign_pk_def)

lemma assign_pk_stored: "assign_pk E m rows x = Inr y \<Longrightarrow> stored_as m x y"
proof (cases "VNone \<in> set (pk_of m x)")
  case False
  assume "assign_pk E m rows x = Inr y"
  with False show ?thesis by (simp add: assign_pk_def stored_as_def)
next
  case True
  assume a: "assign_pk E m rows x = Inr y"
  with True obtain c r where c: "pk_columns m = [c]"
    and y: "y = map (\<lambda>p. if fst p = c then (c, VInt r) else p) x"
    by (auto simp: assign_pk_def split: list.splits if_splits option.splits)
  show ?thesis
    using True unfolding stored_as_def y c
    by (simp add: list_all2_map2 list_all2_same)
qed

lemma insert_row_Inr:
  "insert_row E m rows x = Inr rows' \<Longrightarrow>
     \<exists>y. rows' = rows @ [y] \<and> assign_pk E m rows x = Inr y \<and>
         pk_of m y \<notin> pk_of m ` set rows \<and> bindable x"
  by (auto simp: insert_row_def split: if_splits sum.splits)

lemma insert_row_Inl:
  "insert_row E m rows x = Inl e \<Longrightarrow> bindable x \<Longrightarrow> e = IntegrityError \<or> e = OperationalError"
  by (auto simp: insert_row_def assign_pk_def split: if_splits sum.splits list.splits option.splits)

lemma insert_rows_Inr:
  "insert_rows E m rows xs = Inr rows' \<Longrightarrow>
     (\<exists>ys. rows' = rows @ ys \<and> list_all2 (stored_as m) xs ys) \<and>
     list_all bindable xs \<and>
     (\<forall>x \<in> set xs. VNone \<notin> set (pk_of m x) \<longrightarrow>
         x \<in> set rows' \<and> pk_of m x \<notin> pk_of m ` set rows)"
proof (induction xs arbitrary: rows)
  case Nil
  then show ?case by simp
next
  case (Cons x xs)
  from Cons.prems obtain r1 where r1: "insert_row E m rows x = Inr r1"
    and rest: "insert_rows E m r1 xs = Inr rows'"
    by (cases "insert_row E m rows x") auto
  from insert_row_Inr [OF r1] obtain y where r1_eq: "r1 = rows @ [y]"
    and y: "assign_pk E m rows x = Inr y"
    and fresh: "pk_of m y \<notin> pk_of m ` set rows" and bx: "bindable x"
    by auto
  from Cons.IH [OF rest] obtain ys where
    ys: "rows' = r1 @ ys" "list_all2 (stored_as m) xs ys"
    and bs: "list_all bindable xs"
    and ih: "\<forall>z \<in> set xs. VNone \<notin> set (pk_of m z) \<longrightarrow>
         z \<in> set rows' \<and> pk_of m z \<notin> pk_of m ` set r1"
    by auto
  have "rows' = rows @ (y # ys)" using ys(1) r1_eq by simp
  moreover have "list_all2 (stored_as m) (x # xs) (y # ys)"
    using ys(2) assign_pk_stored [OF y] by simp
  ultimately have 1: "\<exists>ys. rows' = rows @ ys \<and> list_all2 (stored_as m) (x # xs) ys"
    by blast
  have 2: "list_all bindable (x # xs)" using bx bs by simp
  have 3: "z \<in> set rows' \<and> pk_of m z \<notin> pk_of m ` set rows"
    if z: "z \<in> set (x # xs)" and ex: "VNone \<notin> set (pk_of m z)" for z
  proof (cases "z \<in> set xs")
    case True
    with ih ex have "z \<in> set rows'" "pk_of m z \<notin> pk_of m ` set r1"
      by auto
    then show ?thesis unfolding r1_eq by auto
  next
    case False
    then have zx: "z = x" using z by simp
    have "y = x" using y ex zx by (simp add: assign_pk_explicit)
    then have "x \<in> set rows'" "pk_of m x \<notin> pk_of m ` set rows"
      using ys(1) r1_eq fresh by simp_all
    then show ?thesis unfolding zx by simp
  qed
  from 1 2 3 show ?case by blast
qed

lemma insert_rows_Inl:
  "insert_rows E m rows xs = Inl e \<Longrightarrow> list_all bindable xs \<Longrightarrow>
     e = IntegrityError \<or> e = OperationalError"
proof (induction xs arbitrary: rows)
  case Nil
  then show ?case by simp
next
  case (Cons x xs)
  show ?case
  proof (cases "insert_row E m rows x")
    case (Inl e')
    with Cons.prems have "e' = e" "bindable x" by simp_all
    with Inl show ?thesis by (auto dest: insert_row_Inl)
  next
    case (Inr r1)
    with Cons.prems have "insert_rows E m r1 xs = Inl e" "list_all bindable xs" by simp_all
    then show ?thesis by (rule Cons.IH)
  qed
qed

lemma insert_rows_conflict:
  assumes "x \<in> set xs" and "VNone \<notin> set (pk_of m x)" and "pk_of m x \<in> pk_of m ` set rows"
  shows "\<exists>e. insert_rows E m rows xs = Inl e"
proof (cases "insert_rows E m rows xs")
  case (Inl e)
  then show ?thesis by simp
next
  case (Inr rows')
  from insert_rows_Inr [OF Inr] assms show ?thesis by blast
qed

section \<open>The loop of \<^verbatim>\<open>bootstrap\<close>\<close>

lemma pending_add_all: "pending (add_all m xs s) = pending s @ map (Pair m) xs"
  by (induction xs arbitrary: s) (simp_all add: session_add_def)

lemma trace_add_all: "trace (add_all m xs s) = trace s @ map (Add m) xs"
  by (induction xs arbitrary: s) (simp_all add: session_add_def)

lemma tables_add_all: "tables (add_all m xs s) = tables s"
  by (induction xs arbitrary: s) (simp_all add: session_add_def)

lemma flush_Pair:
  "db m = Some rows \<Longrightarrow>
   flush E db (map (Pair m) xs) =
     (case insert_rows E m rows xs of Inl e \<Rightarrow> Inl e | Inr rows' \<Rightarrow> Inr (db(m := Some rows')))"
proof (induction xs arbitrary: db rows)
  case Nil
  then show ?case by (simp add: fun_upd_idem)
next
  case (Cons x xs)
  show ?case
  proof (cases "insert_row E m rows x")
    case (Inl e)
    then show ?thesis using Cons.prems by simp
  next
    case (Inr rows')
    have ih: "flush E (db(m := Some rows')) (map (Pair m) xs) =
       (case insert_rows E m rows' xs of Inl e \<Rightarrow> Inl e
        | Inr r \<Rightarrow> Inr ((db(m := Some rows'))(m := Some r)))"
      by (rule Cons.IH) simp
    show ?thesis
      by (simp only: list.map flush.simps Cons.prems option.case Inr sum.case ih fun_upd_upd
          insert_rows.simps)
  qed
qed

lemma instances_of_Inr: "download_instances E m = Inr xs \<Longrightarrow> instances_of E m = xs"
  by (simp add: instances_of_def)

lemma instances_of_Inl: "download_instances E m = Inl e \<Longrightarrow> instances_of E m = []"
  by (simp add: instances_of_def)

lemma load_step:
  assumes "pending s = []" and "tables s m = Some rows"
  shows "load_models E (m # ms) s =
     (case download_instances E m of
        Inl e \<Rightarrow> (Some e, s\<lparr>trace := trace s @ [Fetch m]\<rparr>)
      | Inr xs \<Rightarrow>
          (case insert_rows E m rows xs of
             Inl e \<Rightarrow> (Some e, add_all m xs (s\<lparr>trace := trace s @ [Fetch m]\<rparr>))
           | Inr rows' \<Rightarrow>
               load_models E ms
                 (s\<lparr>tables := (tables s)(m := Some rows'), pending := [],
                    trace := trace s @ unit_of_work E m\<rparr>)))"
proof (cases "download_instances E m")
  case (Inl e)
  then show ?thesis by simp
next
  case (Inr xs)
  let ?s1 = "add_all m xs (s\<lparr>trace := trace s @ [Fetch m]\<rparr>)"
  have fl: "flush E (tables ?s1) (pending ?s1) =
      (case insert_rows E m rows xs of Inl e \<Rightarrow> Inl e
       | Inr rows' \<Rightarrow> Inr ((tables s)(m := Some rows')))"
    using assms flush_Pair [of "tables s" m rows E xs]
    by (simp add: pending_add_all tables_add_all)
  show ?thesis
  proof (cases "insert_rows E m rows xs")
    case (Inl e)
    then show ?thesis using Inr fl by (simp add: commit_def)
  next
    case (Inr rows')
    have "?s1\<lparr>tables := (tables s)(m := Some rows'), pending := [], trace := trace ?s1 @ [Commit m]\<rparr>
        = s\<lparr>tables := (tables s)(m := Some rows'), pending := [], trace := trace s @ unit_of_work E m\<rparr>"
      using \<open>download_instances E m = Inr xs\<close>
      by (cases s) (simp add: trace_add_all unit_of_work_def instances_of_Inr
          state.equality pending_add_all tables_add_all)
    then show ?thesis
      using Inr \<open>download_instances E m = Inr xs\<close> fl by (simp add: commit_def)
  qed
qed

lemma load_step_download_failed:
  assumes "download_instances E m = Inl e"
  shows "load_models E (m # ms) s = (Some e, s\<lparr>trace := trace s @ [Fetch m]\<rparr>)"
  using assms by simp

lemma load_step_commit_failed:
  assumes "pending s = []" and "tables s m = Some rows" and "download_instances E m = Inr xs"
    and "insert_rows E m rows xs = Inl e"
  shows "load_models E (m # ms) s
           = (Some e, add_all m xs (s\<lparr>trace := trace s @ [Fetch m]\<rparr>))"
  by (simp only: load_step [OF assms(1,2)] assms(3,4) sum.case)

lemma load_step_committed:
  assumes "pending s = []" and "tables s m = Some rows" and "download_instances E m = Inr xs"
    and "insert_rows E m rows xs = Inr rows'"
  shows "load_models E (m # ms) s
           = load_models E ms
               (s\<lparr>tables := (tables s)(m := Some rows'), pending := [],
                  trace := trace s @ unit_of_work E m\<rparr>)"
  by (simp only: load_step [OF assms(1,2)] assms(3,4) sum.case)

text \<open>The loop over a list of classes is the loop over its first class, then over the rest.\<close>

lemma load_models_Cons:
  "load_models E (m # ms) s =
     (case load_models E [m] s of
        (None, s') \<Rightarrow> load_models E ms s'
      | (Some e, s') \<Rightarrow> (Some e, s'))"
  by (simp split: sum.splits)

lemma load_models_Cons_None:
  assumes "load_models E [m] s = (None, s')"
  shows "load_models E (m # ms) s = load_models E ms s'"
  by (subst load_models_Cons) (simp only: assms prod.case option.case)

lemma load_models_Cons_Some:
  assumes "load_models E [m] s = (Some e, s')"
  shows "load_models E (m # ms) s = (Some e, s')"
  by (subst load_models_Cons) (simp only: assms prod.case option.case)

lemma load_models_append:
  "fst (load_models E xs s) = None \<Longrightarrow>
     load_models E (xs @ ys) s = load_models E ys (snd (load_models E xs s))"
proof (induction xs arbitrary: s)
  case Nil
  then show ?case by simp
next
  case (Cons m xs)
  show ?case
  proof (cases "load_models E [m] s")
    case (Pair r s')
    show ?thesis
    proof (cases r)
      case None
      have 1: "load_models E (m # xs) s = load_models E xs s'"
        and 2: "load_models E (m # xs @ ys) s = load_models E (xs @ ys) s'"
        using Pair unfolding None by (rule load_models_Cons_None)+
      from Cons.prems have "fst (load_models E xs s') = None" unfolding 1 .
      from Cons.IH [OF this] show ?thesis
        by (simp only: append_Cons 1 2)
    next
      case (Some e)
      have "load_models E (m # xs) s = (Some e, s')"
        using Pair unfolding Some by (rule load_models_Cons_Some)
      with Cons.prems show ?thesis by (simp del: load_models.simps)
    qed
  qed
qed

lemma load_models_prefix:
  "fst (load_models E (xs @ ys) s) = None \<Longrightarrow> fst (load_models E xs s) = None"
proof (induction xs arbitrary: s)
  case Nil
  then show ?case by simp
next
  case (Cons m xs)
  show ?case
  proof (cases "load_models E [m] s")
    case (Pair r s')
    show ?thesis
    proof (cases r)
      case None
      have 1: "load_models E (m # xs) s = load_models E xs s'"
        and 2: "load_models E (m # xs @ ys) s = load_models E (xs @ ys) s'"
        using Pair unfolding None by (rule load_models_Cons_None)+
      from Cons.prems have "fst (load_models E (xs @ ys) s') = None"
        by (simp only: append_Cons 2)
      from Cons.IH [OF this] show ?thesis by (simp only: 1)
    next
      case (Some e)
      have "load_models E (m # xs @ ys) s = (Some e, s')"
        using Pair unfolding Some by (rule load_models_Cons_Some)
      with Cons.prems show ?thesis by (simp del: load_models.simps)
    qed
  qed
qed

text \<open>One class, from a state with nothing pending.\<close>

lemma load_one_committed:
  assumes p: "pending s = []" and t: "tables s m = Some rows"
    and f: "fst (load_models E [m] s) = None"
  shows "download_instances E m = Inr (instances_of E m) \<and>
         (\<exists>rows'. insert_rows E m rows (instances_of E m) = Inr rows' \<and>
            snd (load_models E [m] s) =
              s\<lparr>tables := (tables s)(m := Some rows'), pending := [],
                 trace := trace s @ unit_of_work E m\<rparr>)"
proof (cases "download_instances E m")
  case (Inl e)
  from f show ?thesis by (simp only: load_step_download_failed [OF Inl]) simp
next
  case (Inr xs)
  note dl = this
  have io: "instances_of E m = xs" by (simp add: instances_of_def dl)
  show ?thesis
  proof (cases "insert_rows E m rows xs")
    case (Inl e)
    from f show ?thesis by (simp only: load_step_commit_failed [OF p t dl Inl]) simp
  next
    case (Inr rows')
    have "load_models E [m] s =
        (None, s\<lparr>tables := (tables s)(m := Some rows'), pending := [],
                  trace := trace s @ unit_of_work E m\<rparr>)"
      by (simp only: load_step_committed [OF p t dl Inr] load_models.simps(1))
    then show ?thesis using dl Inr io by simp
  qed
qed

lemma load_one_failed:
  assumes p: "pending s = []" and t: "tables s m = Some rows"
    and f: "fst (load_models E [m] s) = Some e"
  shows "run_error E m rows = Some e \<and>
         tables (snd (load_models E [m] s)) = tables s \<and>
         trace (snd (load_models E [m] s)) = trace s @ aborted_work E m"
proof (cases "download_instances E m")
  case (Inl e')
  have io: "instances_of E m = []" by (simp add: instances_of_def Inl)
  from f show ?thesis
    by (simp only: load_step_download_failed [OF Inl])
       (simp add: run_error_def Inl aborted_work_def io)
next
  case (Inr xs)
  note dl = this
  have io: "instances_of E m = xs" by (simp add: instances_of_def dl)
  show ?thesis
  proof (cases "insert_rows E m rows xs")
    case (Inl e')
    from f show ?thesis
      by (simp only: load_step_commit_failed [OF p t dl Inl])
         (simp add: run_error_def dl Inl aborted_work_def io tables_add_all trace_add_all)
  next
    case (Inr rows')
    have "load_models E [m] s =
        (None, s\<lparr>tables := (tables s)(m := Some rows'), pending := [],
                  trace := trace s @ unit_of_work E m\<rparr>)"
      by (simp only: load_step_committed [OF p t dl Inr] load_models.simps(1))
    with f show ?thesis by simp
  qed
qed

section \<open>The run as a whole\<close>

text \<open>The classes that are committed, from a state with nothing pending and every table there.\<close>

lemma load_one_state:
  assumes p: "pending s = []" and t: "tables s m = Some rows"
    and f: "fst (load_models E [m] s) = None"
  obtains rows' where "insert_rows E m rows (instances_of E m) = Inr rows'"
    and "download_instances E m = Inr (instances_of E m)"
    and "load_models E [m] s =
           (None, s\<lparr>tables := (tables s)(m := Some rows'), pending := [],
                     trace := trace s @ unit_of_work E m\<rparr>)"
proof -
  from load_one_committed [OF p t f] have
    dl: "download_instances E m = Inr (instances_of E m)"
    and ex: "\<exists>rows'. insert_rows E m rows (instances_of E m) = Inr rows' \<and>
            snd (load_models E [m] s) =
              s\<lparr>tables := (tables s)(m := Some rows'), pending := [],
                 trace := trace s @ unit_of_work E m\<rparr>"
    by (rule conjunct1, rule conjunct2)
  from ex show thesis
  proof (elim exE conjE)
    fix rows'
    assume i: "insert_rows E m rows (instances_of E m) = Inr rows'"
      and s': "snd (load_models E [m] s) =
              s\<lparr>tables := (tables s)(m := Some rows'), pending := [],
                 trace := trace s @ unit_of_work E m\<rparr>"
    have "load_models E [m] s =
           (None, s\<lparr>tables := (tables s)(m := Some rows'), pending := [],
                     trace := trace s @ unit_of_work E m\<rparr>)"
      using f s' by (simp add: prod_eq_iff del: load_models.simps)
    with i dl show thesis by (rule that)
  qed
qed

lemma load_models_committed:
  assumes "pending s = []" and "\<forall>k. tables s k \<noteq> None" and "fst (load_models E pre s) = None"
  shows "pending (snd (load_models E pre s)) = [] \<and>
         (\<forall>k. tables (snd (load_models E pre s)) k \<noteq> None) \<and>
         trace (snd (load_models E pre s)) = trace s @ concat (map (unit_of_work E) pre)"
  using assms
proof (induction pre arbitrary: s)
  case Nil
  then show ?case by simp
next
  case (Cons m pre)
  from Cons.prems(2) obtain rows where rows: "tables s m = Some rows" by auto
  have f1: "fst (load_models E [m] s) = None"
    by (rule load_models_prefix [of E "[m]" pre s]) (simp only: append_Cons append_Nil Cons.prems(3))
  from load_one_state [OF Cons.prems(1) rows f1] obtain rows' where
    one: "load_models E [m] s =
           (None, s\<lparr>tables := (tables s)(m := Some rows'), pending := [],
                     trace := trace s @ unit_of_work E m\<rparr>)"
    by blast
  define s' where "s' = s\<lparr>tables := (tables s)(m := Some rows'), pending := [],
                     trace := trace s @ unit_of_work E m\<rparr>"
  have eq: "load_models E (m # pre) s = load_models E pre s'"
    unfolding s'_def by (rule load_models_Cons_None [OF one])
  have p: "pending s' = []" and t: "\<forall>k. tables s' k \<noteq> None"
    and tr: "trace s' = trace s @ unit_of_work E m"
    using Cons.prems(2) by (simp_all add: s'_def)
  have f: "fst (load_models E pre s') = None" using Cons.prems(3) unfolding eq .
  from Cons.IH [OF p t f] show ?case unfolding eq tr by simp
qed

lemma load_models_committed_tables:
  assumes "pending s = []" and "\<forall>k. tables s k \<noteq> None" and "fst (load_models E pre s) = None"
    and "distinct pre"
  shows "(\<forall>k \<in> set pre. download_instances E k = Inr (instances_of E k) \<and>
            (\<exists>rows rows'. tables s k = Some rows \<and>
                insert_rows E k rows (instances_of E k) = Inr rows' \<and>
                tables (snd (load_models E pre s)) k = Some rows')) \<and>
         (\<forall>k. k \<notin> set pre \<longrightarrow> tables (snd (load_models E pre s)) k = tables s k)"
  using assms
proof (induction pre arbitrary: s)
  case Nil
  then show ?case by simp
next
  case (Cons m pre)
  from Cons.prems(2) obtain rows where rows: "tables s m = Some rows" by auto
  have f1: "fst (load_models E [m] s) = None"
    by (rule load_models_prefix [of E "[m]" pre s]) (simp only: append_Cons append_Nil Cons.prems(3))
  from load_one_state [OF Cons.prems(1) rows f1] obtain rows' where
    ins: "insert_rows E m rows (instances_of E m) = Inr rows'"
    and dl: "download_instances E m = Inr (instances_of E m)"
    and one: "load_models E [m] s =
           (None, s\<lparr>tables := (tables s)(m := Some rows'), pending := [],
                     trace := trace s @ unit_of_work E m\<rparr>)"
    by blast
  define s' where "s' = s\<lparr>tables := (tables s)(m := Some rows'), pending := [],
                     trace := trace s @ unit_of_work E m\<rparr>"
  have eq: "load_models E (m # pre) s = load_models E pre s'"
    unfolding s'_def by (rule load_models_Cons_None [OF one])
  have p: "pending s' = []" and t: "\<forall>k. tables s' k \<noteq> None"
    and tm: "tables s' m = Some rows'"
    and tk: "\<And>k. k \<noteq> m \<Longrightarrow> tables s' k = tables s k"
    using Cons.prems(2) by (simp_all add: s'_def)
  have f: "fst (load_models E pre s') = None" using Cons.prems(3) unfolding eq .
  have dis: "distinct pre" and notin: "m \<notin> set pre" using Cons.prems(4) by simp_all
  from Cons.IH [OF p t f dis] have
    ih1: "\<forall>k \<in> set pre. download_instances E k = Inr (instances_of E k) \<and>
            (\<exists>rows rows'. tables s' k = Some rows \<and>
                insert_rows E k rows (instances_of E k) = Inr rows' \<and>
                tables (snd (load_models E pre s')) k = Some rows')"
    and ih2: "\<forall>k. k \<notin> set pre \<longrightarrow> tables (snd (load_models E pre s')) k = tables s' k"
    by (rule conjunct1, rule conjunct2)
  have c1: "download_instances E k = Inr (instances_of E k) \<and>
            (\<exists>rows rows'. tables s k = Some rows \<and>
                insert_rows E k rows (instances_of E k) = Inr rows' \<and>
                tables (snd (load_models E (m # pre) s)) k = Some rows')"
    if k: "k \<in> set (m # pre)" for k
  proof (cases "k = m")
    case True
    have "tables (snd (load_models E pre s')) m = Some rows'"
      using ih2 notin tm by simp
    then show ?thesis
      unfolding eq True using rows ins dl by simp
  next
    case False
    then have "k \<in> set pre" using k by simp
    with ih1 have "download_instances E k = Inr (instances_of E k) \<and>
            (\<exists>rows rows'. tables s' k = Some rows \<and>
                insert_rows E k rows (instances_of E k) = Inr rows' \<and>
                tables (snd (load_models E pre s')) k = Some rows')"
      by (rule bspec)
    then show ?thesis
      unfolding eq tk [OF False] .
  qed
  have c2: "\<forall>k. k \<notin> set (m # pre) \<longrightarrow> tables (snd (load_models E (m # pre) s)) k = tables s k"
    unfolding eq using ih2 tk by simp
  from c1 c2 show ?case by blast
qed

text \<open>The run of the loop: the classes committed, then the class it ends at, if any.\<close>

lemma load_models_run:
  assumes "pending s = []" and "\<forall>k. tables s k \<noteq> None"
  shows "\<exists>loaded rest. ms = loaded @ rest \<and> fst (load_models E loaded s) = None \<and>
           (fst (load_models E ms s) = None \<longleftrightarrow> rest = []) \<and>
           tables (snd (load_models E ms s)) = tables (snd (load_models E loaded s)) \<and>
           trace (snd (load_models E ms s)) =
             trace (snd (load_models E loaded s))
               @ (case rest of [] \<Rightarrow> [] | m # _ \<Rightarrow> aborted_work E m) \<and>
           (\<forall>m rest' rows. rest = m # rest' \<and> tables (snd (load_models E loaded s)) m = Some rows
               \<longrightarrow> fst (load_models E ms s) = run_error E m rows \<and> run_error E m rows \<noteq> None)"
  using assms
proof (induction ms arbitrary: s)
  case Nil
  then show ?case by simp
next
  case (Cons m ms)
  from Cons.prems(2) obtain rows where rows: "tables s m = Some rows" by auto
  show ?case
  proof (cases "fst (load_models E [m] s)")
    case None
    from load_one_state [OF Cons.prems(1) rows None] obtain rows' where
      one: "load_models E [m] s =
           (None, s\<lparr>tables := (tables s)(m := Some rows'), pending := [],
                     trace := trace s @ unit_of_work E m\<rparr>)"
      by blast
    define s' where "s' = s\<lparr>tables := (tables s)(m := Some rows'), pending := [],
                     trace := trace s @ unit_of_work E m\<rparr>"
    have eq: "\<And>xs. load_models E (m # xs) s = load_models E xs s'"
      unfolding s'_def by (rule load_models_Cons_None [OF one])
    have p: "pending s' = []" and t: "\<forall>k. tables s' k \<noteq> None"
      using Cons.prems(2) by (simp_all add: s'_def)
    from Cons.IH [OF p t] show ?thesis
    proof (elim exE conjE)
      fix loaded rest
      assume d1: "ms = loaded @ rest"
        and d2: "fst (load_models E loaded s') = None"
        and d3: "(fst (load_models E ms s') = None) = (rest = [])"
        and d4: "tables (snd (load_models E ms s')) = tables (snd (load_models E loaded s'))"
        and d5: "trace (snd (load_models E ms s')) =
             trace (snd (load_models E loaded s'))
               @ (case rest of [] \<Rightarrow> [] | m # _ \<Rightarrow> aborted_work E m)"
        and d6: "\<forall>m rest' rows. rest = m # rest' \<and> tables (snd (load_models E loaded s')) m = Some rows
               \<longrightarrow> fst (load_models E ms s') = run_error E m rows \<and> run_error E m rows \<noteq> None"
      have c1: "m # ms = (m # loaded) @ rest" using d1 by simp
      from c1 d2 d3 d4 d5 d6 show ?thesis
        unfolding eq [symmetric]
        by (intro exI [of _ "m # loaded"] exI [of _ rest] conjI)
    qed
  next
    case (Some e)
    obtain s1 where one: "load_models E [m] s = (Some e, s1)"
      using Some by (cases "load_models E [m] s") (simp del: load_models.simps)
    have run: "load_models E (m # ms) s = (Some e, s1)"
      by (rule load_models_Cons_Some [OF one])
    from load_one_failed [OF Cons.prems(1) rows Some] have
      re: "run_error E m rows = Some e"
      and tb: "tables s1 = tables s"
      and tr: "trace s1 = trace s @ aborted_work E m"
      unfolding one by simp_all
    have c1: "m # ms = [] @ (m # ms)" by simp
    have c2: "fst (load_models E [] s) = None" by simp
    have c3: "(fst (load_models E (m # ms) s) = None) = (m # ms = [])"
      unfolding run by simp
    have c4: "tables (snd (load_models E (m # ms) s)) = tables (snd (load_models E [] s))"
      unfolding run using tb by simp
    have c5: "trace (snd (load_models E (m # ms) s)) =
             trace (snd (load_models E [] s))
               @ (case m # ms of [] \<Rightarrow> [] | m # _ \<Rightarrow> aborted_work E m)"
      unfolding run using tr by simp
    have c6: "\<forall>k rest' r. m # ms = k # rest' \<and> tables (snd (load_models E [] s)) k = Some r
               \<longrightarrow> fst (load_models E (m # ms) s) = run_error E k r \<and> run_error E k r \<noteq> None"
      unfolding run using rows re by simp
    from c1 c2 c3 c4 c5 c6 show ?thesis
      by (intro exI [of _ "[]"] exI [of _ "m # ms"] conjI)
  qed
qed

lemma session_start_ready:
  "pending (session_start db) = []" "\<forall>m. tables (session_start db) m \<noteq> None"
  "tables (session_start db) = (\<lambda>k. Some (rows_before db k))"
  "trace (session_start db) = [CreateAll]"
  by (simp_all add: session_start_def create_all_rows_before)

lemma bootstrap_parts:
  "fst (bootstrap E db) = fst (load_models E ALL_MODELS (session_start db))"
  "trace (snd (bootstrap E db)) = trace (snd (load_models E ALL_MODELS (session_start db)))"
  "tables (snd (bootstrap E db)) = tables (snd (load_models E ALL_MODELS (session_start db)))"
  "pending (snd (bootstrap E db)) = []"
  by (simp_all add: bootstrap_def close_def split: prod.splits)

lemma bootstrap_run:
  "\<exists>loaded rest. ALL_MODELS = loaded @ rest \<and>
     fst (load_models E loaded (session_start db)) = None \<and>
     (fst (bootstrap E db) = None \<longleftrightarrow> rest = []) \<and>
     tables (snd (bootstrap E db)) = tables (state_after E db loaded) \<and>
     trace (snd (bootstrap E db)) =
       CreateAll # concat (map (unit_of_work E) loaded)
         @ (case rest of [] \<Rightarrow> [] | m # _ \<Rightarrow> aborted_work E m) \<and>
     (\<forall>m rest'. rest = m # rest' \<longrightarrow>
        fst (bootstrap E db) = run_error E m (rows_before db m) \<and>
        run_error E m (rows_before db m) \<noteq> None) \<and>
     (\<forall>k \<in> set loaded. download_instances E k = Inr (instances_of E k) \<and>
        (\<exists>rows'. insert_rows E k (rows_before db k) (instances_of E k) = Inr rows' \<and>
           tables (snd (bootstrap E db)) k = Some rows')) \<and>
     (\<forall>k. k \<notin> set loaded \<longrightarrow> tables (snd (bootstrap E db)) k = Some (rows_before db k))"
proof -
  let ?s = "session_start db"
  note r = session_start_ready [of db]
  from load_models_run [OF r(1,2), of ALL_MODELS E] show ?thesis
  proof (elim exE conjE)
    fix loaded rest
    assume d1: "ALL_MODELS = loaded @ rest"
      and d2: "fst (load_models E loaded ?s) = None"
      and d3: "(fst (load_models E ALL_MODELS ?s) = None) = (rest = [])"
      and d4: "tables (snd (load_models E ALL_MODELS ?s)) = tables (snd (load_models E loaded ?s))"
      and d5: "trace (snd (load_models E ALL_MODELS ?s)) =
             trace (snd (load_models E loaded ?s))
               @ (case rest of [] \<Rightarrow> [] | m # _ \<Rightarrow> aborted_work E m)"
      and d6: "\<forall>m rest' rows. rest = m # rest' \<and> tables (snd (load_models E loaded ?s)) m = Some rows
               \<longrightarrow> fst (load_models E ALL_MODELS ?s) = run_error E m rows \<and>
                   run_error E m rows \<noteq> None"
    have dis: "distinct loaded" and disj: "set loaded \<inter> set rest = {}"
      using distinct_ALL_MODELS unfolding d1 by simp_all
    from load_models_committed [OF r(1,2) d2] have
      tr: "trace (snd (load_models E loaded ?s)) = trace ?s @ concat (map (unit_of_work E) loaded)"
      by (elim conjE)
    from load_models_committed_tables [OF r(1,2) d2 dis] have
      t1: "\<forall>k \<in> set loaded. download_instances E k = Inr (instances_of E k) \<and>
            (\<exists>rows rows'. tables ?s k = Some rows \<and>
                insert_rows E k rows (instances_of E k) = Inr rows' \<and>
                tables (snd (load_models E loaded ?s)) k = Some rows')"
      and t2: "\<forall>k. k \<notin> set loaded \<longrightarrow> tables (snd (load_models E loaded ?s)) k = tables ?s k"
      by (rule conjunct1, rule conjunct2)
    have c3: "(fst (bootstrap E db) = None) = (rest = [])"
      unfolding bootstrap_parts by (rule d3)
    have c4: "tables (snd (bootstrap E db)) = tables (state_after E db loaded)"
      unfolding bootstrap_parts state_after_def by (rule d4)
    have c5: "trace (snd (bootstrap E db)) =
       CreateAll # concat (map (unit_of_work E) loaded)
         @ (case rest of [] \<Rightarrow> [] | m # _ \<Rightarrow> aborted_work E m)"
      unfolding bootstrap_parts d5 tr r(4) by simp
    have c6: "\<forall>m rest'. rest = m # rest' \<longrightarrow>
        fst (bootstrap E db) = run_error E m (rows_before db m) \<and>
        run_error E m (rows_before db m) \<noteq> None"
    proof (intro allI impI)
      fix m rest' assume rest: "rest = m # rest'"
      then have "m \<notin> set loaded" using disj by auto
      with t2 have "tables (snd (load_models E loaded ?s)) m = Some (rows_before db m)"
        by (simp add: r(3))
      with d6 rest show "fst (bootstrap E db) = run_error E m (rows_before db m) \<and>
        run_error E m (rows_before db m) \<noteq> None"
        unfolding bootstrap_parts by blast
    qed
    have c7: "\<forall>k \<in> set loaded. download_instances E k = Inr (instances_of E k) \<and>
        (\<exists>rows'. insert_rows E k (rows_before db k) (instances_of E k) = Inr rows' \<and>
           tables (snd (bootstrap E db)) k = Some rows')"
    proof
      fix k assume "k \<in> set loaded"
      with t1 have "download_instances E k = Inr (instances_of E k) \<and>
            (\<exists>rows rows'. tables ?s k = Some rows \<and>
                insert_rows E k rows (instances_of E k) = Inr rows' \<and>
                tables (snd (load_models E loaded ?s)) k = Some rows')"
        by (rule bspec)
      then show "download_instances E k = Inr (instances_of E k) \<and>
        (\<exists>rows'. insert_rows E k (rows_before db k) (instances_of E k) = Inr rows' \<and>
           tables (snd (bootstrap E db)) k = Some rows')"
        unfolding bootstrap_parts d4 r(3) by auto
    qed
    have c8: "\<forall>k. k \<notin> set loaded \<longrightarrow> tables (snd (bootstrap E db)) k = Some (rows_before db k)"
      unfolding bootstrap_parts d4 using t2 by (simp add: r(3))
    from d1 d2 c3 c4 c5 c6 c7 c8 show ?thesis
      by (intro exI [of _ loaded] exI [of _ rest] conjI)
  qed
qed

lemma state_after_step:
  assumes l: "fst (load_models E (pre @ m # post) (session_start db)) = None"
  shows "pending (state_after E db pre) = [] \<and>
         trace (state_after E db pre) = CreateAll # concat (map (unit_of_work E) pre) \<and>
         download_instances E m = Inr (instances_of E m) \<and>
         (\<exists>rows ys. tables (state_after E db pre) m = Some rows \<and>
            list_all2 (stored_as m) (instances_of E m) ys \<and>
            state_after E db (pre @ [m]) =
              \<lparr>tables = (tables (state_after E db pre))(m := Some (rows @ ys)), pending = [],
               trace = trace (state_after E db pre) @ unit_of_work E m\<rparr>) \<and>
         load_models E (pre @ m # post @ rest) (session_start db)
           = load_models E (post @ rest) (state_after E db (pre @ [m]))"
proof -
  let ?s = "session_start db"
  let ?sp = "state_after E db pre"
  note r = session_start_ready [of db]
  have fp: "fst (load_models E pre ?s) = None"
    using l by (rule load_models_prefix)
  have fpm: "fst (load_models E (pre @ [m]) ?s) = None"
    by (rule load_models_prefix [of E "pre @ [m]" post ?s]) (simp only: append_assoc append_Cons append_Nil l)
  note c = load_models_committed [OF r(1,2) fp, folded state_after_def]
  have p: "pending ?sp = []" by (rule c [THEN conjunct1])
  have t: "\<forall>k. tables ?sp k \<noteq> None" by (rule c [THEN conjunct2, THEN conjunct1])
  have tr: "trace ?sp = trace ?s @ concat (map (unit_of_work E) pre)"
    by (rule c [THEN conjunct2, THEN conjunct2])
  have app: "load_models E (pre @ [m]) ?s = load_models E [m] ?sp"
    unfolding state_after_def by (rule load_models_append [OF fp])
  have f1: "fst (load_models E [m] ?sp) = None" using fpm unfolding app .
  from t obtain rows where rows: "tables ?sp m = Some rows" by auto
  from load_one_state [OF p rows f1] obtain rows' where
    ins: "insert_rows E m rows (instances_of E m) = Inr rows'"
    and dl: "download_instances E m = Inr (instances_of E m)"
    and one: "load_models E [m] ?sp =
           (None, ?sp\<lparr>tables := (tables ?sp)(m := Some rows'), pending := [],
                     trace := trace ?sp @ unit_of_work E m\<rparr>)"
    by blast
  from insert_rows_Inr [OF ins] obtain ys where
    ys: "rows' = rows @ ys" "list_all2 (stored_as m) (instances_of E m) ys"
    by blast
  have st: "state_after E db (pre @ [m]) =
              \<lparr>tables = (tables ?sp)(m := Some (rows @ ys)), pending = [],
               trace = trace ?sp @ unit_of_work E m\<rparr>"
  proof -
    have "state_after E db (pre @ [m]) = snd (load_models E [m] ?sp)"
      by (simp only: state_after_def [of E db "pre @ [m]"] app)
    also have "\<dots> = ?sp\<lparr>tables := (tables ?sp)(m := Some rows'), pending := [],
                     trace := trace ?sp @ unit_of_work E m\<rparr>"
      by (simp only: one snd_conv)
    also have "\<dots> = \<lparr>tables = (tables ?sp)(m := Some (rows @ ys)), pending = [],
               trace = trace ?sp @ unit_of_work E m\<rparr>"
      unfolding ys(1) by (cases ?sp) simp
    finally show ?thesis .
  qed
  have c1: "trace ?sp = CreateAll # concat (map (unit_of_work E) pre)"
    unfolding tr r(4) by simp
  have c4: "\<exists>rows ys. tables ?sp m = Some rows \<and>
            list_all2 (stored_as m) (instances_of E m) ys \<and>
            state_after E db (pre @ [m]) =
              \<lparr>tables = (tables ?sp)(m := Some (rows @ ys)), pending = [],
               trace = trace ?sp @ unit_of_work E m\<rparr>"
    using rows ys(2) st by (intro exI [of _ rows] exI [of _ ys] conjI)
  have c5: "load_models E (pre @ m # post @ rest) ?s
           = load_models E (post @ rest) (state_after E db (pre @ [m]))"
    using load_models_append [OF fpm, of "post @ rest"]
    by (simp only: state_after_def append_assoc append_Cons append_Nil)
  from p c1 dl c4 c5 show ?thesis by (intro conjI)
qed

text \<open>
  C5. A run, whatever the sources and the destination. The session starts from the
  schema step: every table is there, with the rows it held before, and nothing else has
  happened. The classes of a prefix \<open>loaded\<close> of the load order are then committed one
  after the other, and the run succeeds exactly when the prefix is the whole order. For
  each class \<open>m\<close> of the prefix, with \<open>pre\<close> the classes before it: when the request for
  \<open>m\<close> is made nothing is pending and the events so far are the schema step and the
  requests, adds and commits of \<open>pre\<close>; the source of \<open>m\<close> gives its instances; and the
  state in which the loop goes on to the classes after \<open>m\<close> has the table of \<open>m\<close>
  extended by one stored row for each instance, in order, every other table as before,
  nothing pending, and the request, the adds and the commit of \<open>m\<close> as the events
  since. When the run fails, the events end with the request and the adds of the next
  class, without a commit. The tables at the end are those of the state after the prefix,
  and nothing is pending.
\<close>

theorem bootstrap_event_order:
  "\<exists>loaded rest.
     ALL_MODELS = loaded @ rest \<and>
     (fst (bootstrap E db) = None \<longleftrightarrow> rest = []) \<and>
     trace (snd (bootstrap E db)) =
       CreateAll # concat (map (unit_of_work E) loaded)
         @ (case rest of [] \<Rightarrow> [] | m # _ \<Rightarrow> aborted_work E m) \<and>
     state_after E db [] =
       \<lparr>tables = (\<lambda>k. Some (rows_before db k)), pending = [], trace = [CreateAll]\<rparr> \<and>
     (\<forall>pre m post. loaded = pre @ m # post \<longrightarrow>
        pending (state_after E db pre) = [] \<and>
        trace (state_after E db pre) = CreateAll # concat (map (unit_of_work E) pre) \<and>
        download_instances E m = Inr (instances_of E m) \<and>
        (\<exists>rows ys. tables (state_after E db pre) m = Some rows \<and>
           list_all2 (stored_as m) (instances_of E m) ys \<and>
           state_after E db (pre @ [m]) =
             \<lparr>tables = (tables (state_after E db pre))(m := Some (rows @ ys)), pending = [],
              trace = trace (state_after E db pre) @ unit_of_work E m\<rparr>) \<and>
        load_models E ALL_MODELS (session_start db)
          = load_models E (post @ rest) (state_after E db (pre @ [m]))) \<and>
     tables (snd (bootstrap E db)) = tables (state_after E db loaded) \<and>
     pending (snd (bootstrap E db)) = []"
proof -
  from bootstrap_run [of E db] show ?thesis
  proof (elim exE conjE)
    fix loaded rest
    assume d1: "ALL_MODELS = loaded @ rest"
      and d2: "fst (load_models E loaded (session_start db)) = None"
      and d3: "(fst (bootstrap E db) = None) = (rest = [])"
      and d4: "tables (snd (bootstrap E db)) = tables (state_after E db loaded)"
      and d5: "trace (snd (bootstrap E db)) =
       CreateAll # concat (map (unit_of_work E) loaded)
         @ (case rest of [] \<Rightarrow> [] | m # _ \<Rightarrow> aborted_work E m)"
    have c0: "state_after E db [] =
       \<lparr>tables = (\<lambda>k. Some (rows_before db k)), pending = [], trace = [CreateAll]\<rparr>"
      by (simp add: state_after_def session_start_def create_all_rows_before)
    have c1: "\<forall>pre m post. loaded = pre @ m # post \<longrightarrow>
        pending (state_after E db pre) = [] \<and>
        trace (state_after E db pre) = CreateAll # concat (map (unit_of_work E) pre) \<and>
        download_instances E m = Inr (instances_of E m) \<and>
        (\<exists>rows ys. tables (state_after E db pre) m = Some rows \<and>
           list_all2 (stored_as m) (instances_of E m) ys \<and>
           state_after E db (pre @ [m]) =
             \<lparr>tables = (tables (state_after E db pre))(m := Some (rows @ ys)), pending = [],
              trace = trace (state_after E db pre) @ unit_of_work E m\<rparr>) \<and>
        load_models E ALL_MODELS (session_start db)
          = load_models E (post @ rest) (state_after E db (pre @ [m]))"
    proof (intro allI impI)
      fix pre m post assume l: "loaded = pre @ m # post"
      have f: "fst (load_models E (pre @ m # post) (session_start db)) = None"
        using d2 unfolding l .
      have a: "ALL_MODELS = pre @ m # post @ rest" unfolding d1 l by simp
      from state_after_step [OF f, of rest]
      show "pending (state_after E db pre) = [] \<and>
        trace (state_after E db pre) = CreateAll # concat (map (unit_of_work E) pre) \<and>
        download_instances E m = Inr (instances_of E m) \<and>
        (\<exists>rows ys. tables (state_after E db pre) m = Some rows \<and>
           list_all2 (stored_as m) (instances_of E m) ys \<and>
           state_after E db (pre @ [m]) =
             \<lparr>tables = (tables (state_after E db pre))(m := Some (rows @ ys)), pending = [],
              trace = trace (state_after E db pre) @ unit_of_work E m\<rparr>) \<and>
        load_models E ALL_MODELS (session_start db)
          = load_models E (post @ rest) (state_after E db (pre @ [m]))"
        unfolding a .
    qed
    from d1 d3 d5 c0 c1 d4 bootstrap_parts(4) [of E db] show ?thesis
      by (intro exI [of _ loaded] exI [of _ rest] conjI)
  qed
qed

lemma download_catalog:
  "download_instances env_catalog m =
     Inr (if m = PartCategory then [[(''id'', VInt 1), (''name'', VStr ''Baseplates'')]]
          else if m = Theme then [[(''id'', VInt 1), (''name'', VStr ''Technic''), (''parent_id'', VNone)]]
          else [])"
  by (cases m)
     (simp_all add: download_instances_def env_catalog_def ok_def catalog_csv_def category_row_def
        theme_row_def model_validate_def validate_fields_def validate_field_def na_to_None_def
        isna_def Field_def)

lemma insert_first_row:
  "insert_rows E PartCategory [] [[(''id'', VInt 1), (''name'', VStr ''Baseplates'')]]
     = Inr [[(''id'', VInt 1), (''name'', VStr ''Baseplates'')]]"
  "insert_rows E Theme [] [[(''id'', VInt 1), (''name'', VStr ''Technic''), (''parent_id'', VNone)]]
     = Inr [[(''id'', VInt 1), (''name'', VStr ''Technic''), (''parent_id'', VNone)]]"
  by (simp_all add: insert_row_def assign_pk_def pk_of_def pk_columns_def Field_def
      bindable_def in_int64_def)

lemma bootstrap_catalog_ok: "fst (bootstrap env_catalog no_tables) = None"
  by (simp add: bootstrap_def session_start_def create_all_def no_tables_def ALL_MODELS_def
      download_catalog commit_def session_add_def insert_row_def assign_pk_def pk_of_def
      pk_columns_def Field_def close_def bindable_def in_int64_def)

lemma stored_as_explicit: "VNone \<notin> set (pk_of m x) \<Longrightarrow> stored_as m x y \<longleftrightarrow> y = x"
  by (simp add: stored_as_def)

lemma catalog_category:
  "instances_of env_catalog PartCategory = [[(''id'', VInt 1), (''name'', VStr ''Baseplates'')]]"
  "VNone \<notin> set (pk_of PartCategory [(''id'', VInt 1), (''name'', VStr ''Baseplates'')])"
  by (simp_all add: instances_of_def download_catalog pk_of_def pk_columns_def Field_def)

theorem bootstrap_event_order_witness:
  "fst (bootstrap env_catalog no_tables) = None \<and>
   trace (snd (bootstrap env_catalog no_tables)) =
     [CreateAll,
      Fetch PartCategory, Add PartCategory [(''id'', VInt 1), (''name'', VStr ''Baseplates'')],
      Commit PartCategory,
      Fetch Theme, Add Theme [(''id'', VInt 1), (''name'', VStr ''Technic''), (''parent_id'', VNone)],
      Commit Theme,
      Fetch Part, Commit Part, Fetch Color, Commit Color, Fetch Set, Commit Set,
      Fetch Element, Commit Element, Fetch Minifig, Commit Minifig,
      Fetch Inventory, Commit Inventory, Fetch InventoryPart, Commit InventoryPart,
      Fetch InventoryMinifig, Commit InventoryMinifig, Fetch InventorySet, Commit InventorySet,
      Fetch PartRelationship, Commit PartRelationship] \<and>
   state_after env_catalog no_tables [PartCategory] =
     \<lparr>tables = (\<lambda>k. Some [])
                 (PartCategory := Some [[(''id'', VInt 1), (''name'', VStr ''Baseplates'')]]),
      pending = [],
      trace = [CreateAll, Fetch PartCategory,
               Add PartCategory [(''id'', VInt 1), (''name'', VStr ''Baseplates'')],
               Commit PartCategory]\<rparr>"
proof -
  from bootstrap_event_order [of env_catalog no_tables] show ?thesis
  proof (elim exE conjE)
    fix loaded rest
    assume d1: "ALL_MODELS = loaded @ rest"
      and d2: "(fst (bootstrap env_catalog no_tables) = None) = (rest = [])"
      and d3: "trace (snd (bootstrap env_catalog no_tables)) =
         CreateAll # concat (map (unit_of_work env_catalog) loaded)
           @ (case rest of [] \<Rightarrow> [] | m # _ \<Rightarrow> aborted_work env_catalog m)"
      and d4: "state_after env_catalog no_tables [] =
         \<lparr>tables = (\<lambda>k. Some (rows_before no_tables k)), pending = [], trace = [CreateAll]\<rparr>"
      and d5: "\<forall>pre m post. loaded = pre @ m # post \<longrightarrow>
        pending (state_after env_catalog no_tables pre) = [] \<and>
        trace (state_after env_catalog no_tables pre)
          = CreateAll # concat (map (unit_of_work env_catalog) pre) \<and>
        download_instances env_catalog m = Inr (instances_of env_catalog m) \<and>
        (\<exists>rows ys. tables (state_after env_catalog no_tables pre) m = Some rows \<and>
           list_all2 (stored_as m) (instances_of env_catalog m) ys \<and>
           state_after env_catalog no_tables (pre @ [m]) =
             \<lparr>tables = (tables (state_after env_catalog no_tables pre))(m := Some (rows @ ys)),
              pending = [],
              trace = trace (state_after env_catalog no_tables pre) @ unit_of_work env_catalog m\<rparr>) \<and>
        load_models env_catalog ALL_MODELS (session_start no_tables)
          = load_models env_catalog (post @ rest) (state_after env_catalog no_tables (pre @ [m]))"
    have r: "rest = []" using d2 bootstrap_catalog_ok by simp
    then have l: "loaded = ALL_MODELS" using d1 by simp
    have 1: "trace (snd (bootstrap env_catalog no_tables)) =
     [CreateAll,
      Fetch PartCategory, Add PartCategory [(''id'', VInt 1), (''name'', VStr ''Baseplates'')],
      Commit PartCategory,
      Fetch Theme, Add Theme [(''id'', VInt 1), (''name'', VStr ''Technic''), (''parent_id'', VNone)],
      Commit Theme,
      Fetch Part, Commit Part, Fetch Color, Commit Color, Fetch Set, Commit Set,
      Fetch Element, Commit Element, Fetch Minifig, Commit Minifig,
      Fetch Inventory, Commit Inventory, Fetch InventoryPart, Commit InventoryPart,
      Fetch InventoryMinifig, Commit InventoryMinifig, Fetch InventorySet, Commit InventorySet,
      Fetch PartRelationship, Commit PartRelationship]"
      unfolding d3 r l
      by (simp add: ALL_MODELS_def unit_of_work_def instances_of_def download_catalog)
    have "loaded = [] @ PartCategory # [Theme, Part, Color, Set, Element, Minifig, Inventory,
      InventoryPart, InventoryMinifig, InventorySet, PartRelationship]"
      unfolding l by (simp add: ALL_MODELS_def)
    with d5 have "\<exists>rows ys. tables (state_after env_catalog no_tables []) PartCategory = Some rows \<and>
           list_all2 (stored_as PartCategory) (instances_of env_catalog PartCategory) ys \<and>
           state_after env_catalog no_tables ([] @ [PartCategory]) =
             \<lparr>tables = (tables (state_after env_catalog no_tables []))(PartCategory := Some (rows @ ys)),
              pending = [],
              trace = trace (state_after env_catalog no_tables [])
                        @ unit_of_work env_catalog PartCategory\<rparr>"
      by blast
    then have 2: "state_after env_catalog no_tables [PartCategory] =
     \<lparr>tables = (\<lambda>k. Some [])
                 (PartCategory := Some [[(''id'', VInt 1), (''name'', VStr ''Baseplates'')]]),
      pending = [],
      trace = [CreateAll, Fetch PartCategory,
               Add PartCategory [(''id'', VInt 1), (''name'', VStr ''Baseplates'')],
               Commit PartCategory]\<rparr>"
      unfolding d4
      by (auto simp: catalog_category list_all2_Cons1 stored_as_explicit rows_before_def
          no_tables_def unit_of_work_def)
    from bootstrap_catalog_ok 1 2 show ?thesis by (intro conjI)
  qed
qed

section \<open>A run that fails\<close>

lemma Add_in_events:
  "Add k x \<in> set (CreateAll # concat (map (unit_of_work E) loaded)
                    @ (case rest of [] \<Rightarrow> [] | m # _ \<Rightarrow> aborted_work E m))
   \<Longrightarrow> x \<in> set (instances_of E k)"
  by (auto simp: unit_of_work_def aborted_work_def split: list.splits)

lemma Commit_in_events:
  "Commit k \<in> set (CreateAll # concat (map (unit_of_work E) loaded)
                    @ (case rest of [] \<Rightarrow> [] | m # _ \<Rightarrow> aborted_work E m))
   \<longleftrightarrow> k \<in> set loaded"
  by (auto simp: unit_of_work_def aborted_work_def split: list.splits)

lemma Fetch_in_events:
  "Fetch k \<in> set (CreateAll # concat (map (unit_of_work E) loaded)
                    @ (case rest of [] \<Rightarrow> [] | m # _ \<Rightarrow> aborted_work E m))
   \<longleftrightarrow> k \<in> set loaded \<or> (\<exists>rest'. rest = k # rest')"
  by (auto simp: unit_of_work_def aborted_work_def split: list.splits)

lemma Add_in_trace:
  assumes "Add m x \<in> set (trace (snd (bootstrap E db)))"
  shows "x \<in> set (instances_of E m)"
proof -
  from bootstrap_run [of E db] show ?thesis
  proof (elim exE conjE)
    fix loaded rest
    assume "trace (snd (bootstrap E db)) =
       CreateAll # concat (map (unit_of_work E) loaded)
         @ (case rest of [] \<Rightarrow> [] | m # _ \<Rightarrow> aborted_work E m)"
    with assms show ?thesis by (simp only: Add_in_events)
  qed
qed

text \<open>
  C9. When a row of the file of a class \<open>m\<close> fails validation,
  \<^verbatim>\<open>download_instances\<close> raises and returns no list, so the loop ends at \<open>m\<close> with
  nothing added: the state is the one before, with the request recorded. For the whole
  run: it fails, the table of \<open>m\<close> is as the schema step left it, nothing is pending,
  and no instance of \<open>m\<close> was ever added to the session.
\<close>

theorem invalid_row_adds_nothing:
  assumes g: "requests_get E (URL m) = Some r" and o: "ok r"
    and c: "read_csv E (content r) = Some df"
    and row: "row \<in> set df" and bad: "model_validate (lib E) m (na_to_None row) = Inl e0"
  shows "(\<exists>e. download_instances E m = Inl e \<and>
              load_models E (m # ms) s = (Some e, s\<lparr>trace := trace s @ [Fetch m]\<rparr>)) \<and>
         fst (bootstrap E db) \<noteq> None \<and>
         tables (snd (bootstrap E db)) m = create_all db m \<and>
         pending (snd (bootstrap E db)) = [] \<and>
         (\<forall>x. Add m x \<notin> set (trace (snd (bootstrap E db))))"
proof -
  have dl: "download_instances E m = validate_rows (lib E) m df []"
    using g o c by (simp add: download_instances_def)
  from validate_rows_Inl [OF row bad, of "[]"] obtain e where e: "download_instances E m = Inl e"
    unfolding dl by auto
  have io: "instances_of E m = []" by (simp add: instances_of_def e)
  have 1: "\<exists>e. download_instances E m = Inl e \<and>
              load_models E (m # ms) s = (Some e, s\<lparr>trace := trace s @ [Fetch m]\<rparr>)"
    using e load_step_download_failed [OF e] by (intro exI [of _ e] conjI)
  have 23: "fst (bootstrap E db) \<noteq> None \<and> tables (snd (bootstrap E db)) m = create_all db m"
    using bootstrap_run [of E db]
  proof (elim exE conjE)
    fix loaded rest
    assume d1: "ALL_MODELS = loaded @ rest"
      and d3: "(fst (bootstrap E db) = None) = (rest = [])"
      and d7: "\<forall>k \<in> set loaded. download_instances E k = Inr (instances_of E k) \<and>
        (\<exists>rows'. insert_rows E k (rows_before db k) (instances_of E k) = Inr rows' \<and>
           tables (snd (bootstrap E db)) k = Some rows')"
      and d8: "\<forall>k. k \<notin> set loaded \<longrightarrow> tables (snd (bootstrap E db)) k = Some (rows_before db k)"
    have nl: "m \<notin> set loaded"
    proof
      assume "m \<in> set loaded"
      with d7 have "download_instances E m = Inr (instances_of E m)" by blast
      with e show False by simp
    qed
    have "m \<in> set rest" using in_ALL_MODELS [of m] nl unfolding d1 by simp
    then have "fst (bootstrap E db) \<noteq> None" using d3 by auto
    moreover have "tables (snd (bootstrap E db)) m = create_all db m"
      using d8 nl by (simp add: create_all_rows_before)
    ultimately show ?thesis by (rule conjI)
  qed
  have 4: "\<forall>x. Add m x \<notin> set (trace (snd (bootstrap E db)))"
    using Add_in_trace [of m _ E db] io by auto
  from 1 23 [THEN conjunct1] 23 [THEN conjunct2] bootstrap_parts(4) [of E db] 4
  show ?thesis by (intro conjI)
qed

lemma download_bad_row:
  "download_instances env_bad_row PartCategory = Inl (ValidationError PartCategory [''name''])"
  by (simp add: download_instances_def env_bad_row_def ok_def category_row_def category_row_bad_def
      model_validate_def validate_fields_def validate_field_def na_to_None_def isna_def Field_def)

theorem invalid_row_adds_nothing_witness:
  "category_row_bad \<in> set [category_row, category_row_bad] \<and>
   model_validate lib0 PartCategory (na_to_None category_row_bad)
     = Inl (ValidationError PartCategory [''name'']) \<and>
   fst (bootstrap env_bad_row no_tables) = Some (ValidationError PartCategory [''name'']) \<and>
   tables (snd (bootstrap env_bad_row no_tables)) PartCategory = Some [] \<and>
   trace (snd (bootstrap env_bad_row no_tables)) = [CreateAll, Fetch PartCategory]"
proof -
  let ?r = "\<lparr>status_code = 200, content = URL PartCategory\<rparr>"
  have g: "requests_get env_bad_row (URL PartCategory) = Some ?r" by (simp add: env_bad_row_def)
  have o: "ok ?r" by (simp add: ok_def)
  have c: "read_csv env_bad_row (content ?r) = Some [category_row, category_row_bad]"
    by (simp add: env_bad_row_def)
  have i: "category_row_bad \<in> set [category_row, category_row_bad]" by simp
  have b: "model_validate (lib env_bad_row) PartCategory (na_to_None category_row_bad)
     = Inl (ValidationError PartCategory [''name''])"
    by (simp add: env_bad_row_def category_row_bad_def model_validate_def validate_fields_def
        validate_field_def na_to_None_def isna_def Field_def)
  have b': "model_validate lib0 PartCategory (na_to_None category_row_bad)
     = Inl (ValidationError PartCategory [''name''])"
    using b by (simp add: env_bad_row_def)
  have t: "tables (snd (bootstrap env_bad_row no_tables)) PartCategory = Some []"
    using invalid_row_adds_nothing [OF g o c i b, where db = no_tables]
    by (simp add: create_all_def no_tables_def)
  have f: "fst (bootstrap env_bad_row no_tables) = Some (ValidationError PartCategory [''name''])"
    by (simp add: bootstrap_def ALL_MODELS_def download_bad_row)
  have tr: "trace (snd (bootstrap env_bad_row no_tables)) = [CreateAll, Fetch PartCategory]"
    by (simp add: bootstrap_def ALL_MODELS_def download_bad_row close_def session_start_def)
  from i b' f t tr show ?thesis by (intro conjI)
qed

lemma load_order_to_Part:
  "ALL_MODELS = [PartCategory, Theme] @ Part # [Color, Set, Element, Minifig, Inventory,
      InventoryPart, InventoryMinifig, InventorySet, PartRelationship]"
  by (simp add: ALL_MODELS_def)

lemma committed_rows:
  assumes "insert_rows E k rows (instances_of E k) = Inr rows'"
    and "tables s k = Some rows'"
  shows "\<exists>ys. list_all2 (stored_as k) (instances_of E k) ys \<and> tables s k = Some (rows @ ys)"
proof -
  from insert_rows_Inr [OF assms(1)] obtain ys where
    "rows' = rows @ ys" "list_all2 (stored_as k) (instances_of E k) ys"
    by blast
  with assms(2) show ?thesis by blast
qed

lemma failed_run:
  assumes f: "fst (bootstrap E db) \<noteq> None"
  shows "\<exists>loaded m rest. ALL_MODELS = loaded @ m # rest \<and>
         fst (bootstrap E db) = run_error E m (rows_before db m) \<and>
         (\<forall>k \<in> set loaded. \<exists>ys. list_all2 (stored_as k) (instances_of E k) ys \<and>
              tables (snd (bootstrap E db)) k = Some (rows_before db k @ ys)) \<and>
         (\<forall>k. k \<notin> set loaded \<longrightarrow> tables (snd (bootstrap E db)) k = Some (rows_before db k)) \<and>
         (\<forall>k. Commit k \<in> set (trace (snd (bootstrap E db))) \<longleftrightarrow> k \<in> set loaded) \<and>
         trace (snd (bootstrap E db)) =
           CreateAll # concat (map (unit_of_work E) loaded) @ aborted_work E m \<and>
         pending (snd (bootstrap E db)) = []"
proof -
  from bootstrap_run [of E db] show ?thesis
  proof (elim exE conjE)
    fix loaded rest
    assume d1: "ALL_MODELS = loaded @ rest"
      and d3: "(fst (bootstrap E db) = None) = (rest = [])"
      and d5: "trace (snd (bootstrap E db)) =
         CreateAll # concat (map (unit_of_work E) loaded)
           @ (case rest of [] \<Rightarrow> [] | m # _ \<Rightarrow> aborted_work E m)"
      and d6: "\<forall>m rest'. rest = m # rest' \<longrightarrow>
        fst (bootstrap E db) = run_error E m (rows_before db m) \<and>
        run_error E m (rows_before db m) \<noteq> None"
      and d7: "\<forall>k \<in> set loaded. download_instances E k = Inr (instances_of E k) \<and>
        (\<exists>rows'. insert_rows E k (rows_before db k) (instances_of E k) = Inr rows' \<and>
           tables (snd (bootstrap E db)) k = Some rows')"
      and d8: "\<forall>k. k \<notin> set loaded \<longrightarrow> tables (snd (bootstrap E db)) k = Some (rows_before db k)"
    from f d3 obtain m rest' where rest: "rest = m # rest'" by (cases rest) auto
    have c1: "ALL_MODELS = loaded @ m # rest'" using d1 rest by simp
    have c2: "fst (bootstrap E db) = run_error E m (rows_before db m)"
      using d6 rest by blast
    have c3: "\<forall>k \<in> set loaded. \<exists>ys. list_all2 (stored_as k) (instances_of E k) ys \<and>
              tables (snd (bootstrap E db)) k = Some (rows_before db k @ ys)"
    proof
      fix k assume "k \<in> set loaded"
      with d7 obtain rows' where
        "insert_rows E k (rows_before db k) (instances_of E k) = Inr rows'"
        "tables (snd (bootstrap E db)) k = Some rows'"
        by blast
      then show "\<exists>ys. list_all2 (stored_as k) (instances_of E k) ys \<and>
              tables (snd (bootstrap E db)) k = Some (rows_before db k @ ys)"
        by (rule committed_rows)
    qed
    have c5: "\<forall>k. Commit k \<in> set (trace (snd (bootstrap E db))) \<longleftrightarrow> k \<in> set loaded"
      unfolding d5 by (simp only: Commit_in_events simp_thms)
    have c6: "trace (snd (bootstrap E db)) =
           CreateAll # concat (map (unit_of_work E) loaded) @ aborted_work E m"
      unfolding d5 rest by simp
    from c1 c2 c3 d8 c5 c6 bootstrap_parts(4) [of E db] show ?thesis
      by (intro exI [of _ loaded] exI [of _ m] exI [of _ rest'] conjI)
  qed
qed

lemma failed_at_Part:
  assumes ft: "Fetch Part \<in> set (trace (snd (bootstrap E db)))"
    and dl: "download_instances E Part = Inl e"
  shows "fst (bootstrap E db) = Some e \<and>
      (\<exists>cs ts. list_all2 (stored_as PartCategory) (instances_of E PartCategory) cs \<and>
               list_all2 (stored_as Theme) (instances_of E Theme) ts \<and>
               (\<forall>k. tables (snd (bootstrap E db)) k =
                      Some (rows_before db k
                            @ (if k = PartCategory then cs else if k = Theme then ts else [])))) \<and>
      trace (snd (bootstrap E db)) =
        CreateAll # unit_of_work E PartCategory @ unit_of_work E Theme @ [Fetch Part] \<and>
      pending (snd (bootstrap E db)) = []"
proof -
  from bootstrap_run [of E db] show ?thesis
  proof (elim exE conjE)
    fix loaded rest
    assume d1: "ALL_MODELS = loaded @ rest"
      and d5: "trace (snd (bootstrap E db)) =
         CreateAll # concat (map (unit_of_work E) loaded)
           @ (case rest of [] \<Rightarrow> [] | m # _ \<Rightarrow> aborted_work E m)"
      and d6: "\<forall>m rest'. rest = m # rest' \<longrightarrow>
        fst (bootstrap E db) = run_error E m (rows_before db m) \<and>
        run_error E m (rows_before db m) \<noteq> None"
      and d7: "\<forall>k \<in> set loaded. download_instances E k = Inr (instances_of E k) \<and>
        (\<exists>rows'. insert_rows E k (rows_before db k) (instances_of E k) = Inr rows' \<and>
           tables (snd (bootstrap E db)) k = Some rows')"
      and d8: "\<forall>k. k \<notin> set loaded \<longrightarrow> tables (snd (bootstrap E db)) k = Some (rows_before db k)"
    have nl: "Part \<notin> set loaded"
    proof
      assume "Part \<in> set loaded"
      with d7 have "download_instances E Part = Inr (instances_of E Part)" by blast
      with dl show False by simp
    qed
    from ft have "Part \<in> set loaded \<or> (\<exists>rest'. rest = Part # rest')"
      unfolding d5 by (simp only: Fetch_in_events)
    with nl obtain rest' where rest: "rest = Part # rest'" by blast
    have "loaded @ Part # rest' = [PartCategory, Theme] @ Part # [Color, Set, Element, Minifig,
      Inventory, InventoryPart, InventoryMinifig, InventorySet, PartRelationship]"
      using d1 rest load_order_to_Part by simp
    moreover have "Part \<notin> set rest'"
      using distinct_ALL_MODELS unfolding d1 rest by simp
    ultimately have loaded: "loaded = [PartCategory, Theme]"
      using nl by (subst (asm) append_Cons_eq_iff) simp_all
    have io: "instances_of E Part = []" by (simp add: instances_of_def dl)
    have c1: "fst (bootstrap E db) = Some e"
      using d6 rest by (simp add: run_error_def dl)
    from d7 obtain rc where
      rc: "insert_rows E PartCategory (rows_before db PartCategory) (instances_of E PartCategory)
             = Inr rc"
        "tables (snd (bootstrap E db)) PartCategory = Some rc"
      unfolding loaded by auto
    from d7 obtain rt where
      rt: "insert_rows E Theme (rows_before db Theme) (instances_of E Theme) = Inr rt"
        "tables (snd (bootstrap E db)) Theme = Some rt"
      unfolding loaded by auto
    from committed_rows [OF rc] obtain cs where
      cs: "list_all2 (stored_as PartCategory) (instances_of E PartCategory) cs"
        "tables (snd (bootstrap E db)) PartCategory = Some (rows_before db PartCategory @ cs)"
      by blast
    from committed_rows [OF rt] obtain ts where
      ts: "list_all2 (stored_as Theme) (instances_of E Theme) ts"
        "tables (snd (bootstrap E db)) Theme = Some (rows_before db Theme @ ts)"
      by blast
    have all: "\<forall>k. tables (snd (bootstrap E db)) k =
                      Some (rows_before db k
                            @ (if k = PartCategory then cs else if k = Theme then ts else []))"
      using cs(2) ts(2) d8 unfolding loaded by simp
    have c2: "\<exists>cs ts. list_all2 (stored_as PartCategory) (instances_of E PartCategory) cs \<and>
               list_all2 (stored_as Theme) (instances_of E Theme) ts \<and>
               (\<forall>k. tables (snd (bootstrap E db)) k =
                      Some (rows_before db k
                            @ (if k = PartCategory then cs else if k = Theme then ts else [])))"
      using cs(1) ts(1) all by (intro exI [of _ cs] exI [of _ ts] conjI)
    have c3: "trace (snd (bootstrap E db)) =
        CreateAll # unit_of_work E PartCategory @ unit_of_work E Theme @ [Fetch Part]"
      unfolding d5 rest loaded by (simp add: aborted_work_def io)
    from c1 c2 c3 bootstrap_parts(4) [of E db] show ?thesis by (intro conjI)
  qed
qed

text \<open>
  C4, as the code has it. When the run requests the source of \<^verbatim>\<open>Part\<close> and
  \<^verbatim>\<open>download_instances\<close> raises \<open>e\<close> for it, the run ends with \<open>e\<close>; the tables of
  \<^verbatim>\<open>PartCategory\<close> and \<^verbatim>\<open>Theme\<close> hold the rows they held before the run followed by
  one stored row for each instance of their sources; every other table, that of
  \<^verbatim>\<open>Part\<close> and of the classes after it among them, exists and holds exactly the rows it
  held before the run, none if the destination was new; the events are the schema step,
  the two units of work and the request for \<^verbatim>\<open>Part\<close>; nothing is pending. In general a
  run that fails has committed the classes of a prefix \<open>loaded\<close> of the load order and
  no other, each of their tables holding its rows of before followed by the stored rows
  of its source; it ends with the exception of the next class \<open>m\<close>, that of its download
  or of its commit; the tables of \<open>m\<close> and of every class after it hold exactly the rows
  they held before the run, and nothing is pending.
\<close>

theorem failure_isolation:
  "(Fetch Part \<in> set (trace (snd (bootstrap E db))) \<and> download_instances E Part = Inl e \<longrightarrow>
      fst (bootstrap E db) = Some e \<and>
      (\<exists>cs ts. list_all2 (stored_as PartCategory) (instances_of E PartCategory) cs \<and>
               list_all2 (stored_as Theme) (instances_of E Theme) ts \<and>
               (\<forall>k. tables (snd (bootstrap E db)) k =
                      Some (rows_before db k
                            @ (if k = PartCategory then cs else if k = Theme then ts else [])))) \<and>
      trace (snd (bootstrap E db)) =
        CreateAll # unit_of_work E PartCategory @ unit_of_work E Theme @ [Fetch Part] \<and>
      pending (snd (bootstrap E db)) = []) \<and>
   (fst (bootstrap E db) \<noteq> None \<longrightarrow>
      (\<exists>loaded m rest. ALL_MODELS = loaded @ m # rest \<and>
         fst (bootstrap E db) = run_error E m (rows_before db m) \<and>
         (\<forall>k \<in> set loaded. \<exists>ys. list_all2 (stored_as k) (instances_of E k) ys \<and>
              tables (snd (bootstrap E db)) k = Some (rows_before db k @ ys)) \<and>
         (\<forall>k. k \<notin> set loaded \<longrightarrow> tables (snd (bootstrap E db)) k = Some (rows_before db k)) \<and>
         (\<forall>k. Commit k \<in> set (trace (snd (bootstrap E db))) \<longleftrightarrow> k \<in> set loaded) \<and>
         trace (snd (bootstrap E db)) =
           CreateAll # concat (map (unit_of_work E) loaded) @ aborted_work E m \<and>
         pending (snd (bootstrap E db)) = []))"
proof (intro conjI impI)
  assume "Fetch Part \<in> set (trace (snd (bootstrap E db))) \<and> download_instances E Part = Inl e"
  then have ft: "Fetch Part \<in> set (trace (snd (bootstrap E db)))"
    and dl: "download_instances E Part = Inl e"
    by (rule conjunct1, rule conjunct2)
  note r = failed_at_Part [OF ft dl]
  show "fst (bootstrap E db) = Some e" by (rule r [THEN conjunct1])
  show "\<exists>cs ts. list_all2 (stored_as PartCategory) (instances_of E PartCategory) cs \<and>
               list_all2 (stored_as Theme) (instances_of E Theme) ts \<and>
               (\<forall>k. tables (snd (bootstrap E db)) k =
                      Some (rows_before db k
                            @ (if k = PartCategory then cs else if k = Theme then ts else [])))"
    by (rule r [THEN conjunct2, THEN conjunct1])
  show "trace (snd (bootstrap E db)) =
        CreateAll # unit_of_work E PartCategory @ unit_of_work E Theme @ [Fetch Part]"
    by (rule r [THEN conjunct2, THEN conjunct2, THEN conjunct1])
  show "pending (snd (bootstrap E db)) = []"
    by (rule r [THEN conjunct2, THEN conjunct2, THEN conjunct2])
next
  assume "fst (bootstrap E db) \<noteq> None"
  then show "\<exists>loaded m rest. ALL_MODELS = loaded @ m # rest \<and>
         fst (bootstrap E db) = run_error E m (rows_before db m) \<and>
         (\<forall>k \<in> set loaded. \<exists>ys. list_all2 (stored_as k) (instances_of E k) ys \<and>
              tables (snd (bootstrap E db)) k = Some (rows_before db k @ ys)) \<and>
         (\<forall>k. k \<notin> set loaded \<longrightarrow> tables (snd (bootstrap E db)) k = Some (rows_before db k)) \<and>
         (\<forall>k. Commit k \<in> set (trace (snd (bootstrap E db))) \<longleftrightarrow> k \<in> set loaded) \<and>
         trace (snd (bootstrap E db)) =
           CreateAll # concat (map (unit_of_work E) loaded) @ aborted_work E m \<and>
         pending (snd (bootstrap E db)) = []"
    by (rule failed_run)
qed

lemma download_part_down:
  "download_instances env_part_down PartCategory = Inr [[(''id'', VInt 1), (''name'', VStr ''Baseplates'')]]"
  "download_instances env_part_down Theme
     = Inr [[(''id'', VInt 1), (''name'', VStr ''Technic''), (''parent_id'', VNone)]]"
  "download_instances env_part_down Part = Inl RuntimeError"
  by (simp_all add: download_instances_def env_part_down_def ok_def catalog_csv_def category_row_def
        theme_row_def model_validate_def validate_fields_def validate_field_def na_to_None_def
        isna_def Field_def)

lemma part_down_run:
  "trace (snd (bootstrap env_part_down no_tables)) =
     [CreateAll,
      Fetch PartCategory, Add PartCategory [(''id'', VInt 1), (''name'', VStr ''Baseplates'')],
      Commit PartCategory,
      Fetch Theme, Add Theme [(''id'', VInt 1), (''name'', VStr ''Technic''), (''parent_id'', VNone)],
      Commit Theme,
      Fetch Part]"
  by (simp add: bootstrap_def session_start_def create_all_def no_tables_def ALL_MODELS_def
      download_part_down commit_def session_add_def insert_row_def assign_pk_def pk_of_def
      pk_columns_def Field_def close_def bindable_def in_int64_def)

lemma part_down_instances:
  "instances_of env_part_down PartCategory = [[(''id'', VInt 1), (''name'', VStr ''Baseplates'')]]"
  "instances_of env_part_down Theme
     = [[(''id'', VInt 1), (''name'', VStr ''Technic''), (''parent_id'', VNone)]]"
  "VNone \<notin> set (pk_of PartCategory [(''id'', VInt 1), (''name'', VStr ''Baseplates'')])"
  "VNone \<notin> set (pk_of Theme [(''id'', VInt 1), (''name'', VStr ''Technic''), (''parent_id'', VNone)])"
  by (simp_all add: instances_of_def download_part_down pk_of_def pk_columns_def Field_def)

theorem failure_isolation_witness:
  "Fetch Part \<in> set (trace (snd (bootstrap env_part_down no_tables))) \<and>
   download_instances env_part_down Part = Inl RuntimeError \<and>
   fst (bootstrap env_part_down no_tables) = Some RuntimeError \<and>
   tables (snd (bootstrap env_part_down no_tables)) PartCategory
     = Some [[(''id'', VInt 1), (''name'', VStr ''Baseplates'')]] \<and>
   tables (snd (bootstrap env_part_down no_tables)) Theme
     = Some [[(''id'', VInt 1), (''name'', VStr ''Technic''), (''parent_id'', VNone)]] \<and>
   tables (snd (bootstrap env_part_down no_tables)) Part = Some [] \<and>
   tables (snd (bootstrap env_part_down no_tables)) Element = Some [] \<and>
   tables (snd (bootstrap env_part_down no_tables)) InventoryPart = Some [] \<and>
   tables (snd (bootstrap env_part_down no_tables)) PartRelationship = Some []"
proof -
  have ft: "Fetch Part \<in> set (trace (snd (bootstrap env_part_down no_tables)))"
    by (simp add: part_down_run)
  have s: "fst (bootstrap env_part_down no_tables) = Some RuntimeError \<and>
      (\<exists>cs ts. list_all2 (stored_as PartCategory) (instances_of env_part_down PartCategory) cs \<and>
               list_all2 (stored_as Theme) (instances_of env_part_down Theme) ts \<and>
               (\<forall>k. tables (snd (bootstrap env_part_down no_tables)) k =
                      Some (rows_before no_tables k
                            @ (if k = PartCategory then cs else if k = Theme then ts else [])))) \<and>
      trace (snd (bootstrap env_part_down no_tables)) =
        CreateAll # unit_of_work env_part_down PartCategory @ unit_of_work env_part_down Theme
          @ [Fetch Part] \<and>
      pending (snd (bootstrap env_part_down no_tables)) = []"
    by (rule failure_isolation [where E = env_part_down and db = no_tables and e = RuntimeError,
          THEN conjunct1, THEN mp])
       (intro conjI ft download_part_down(3))
  from s have f: "fst (bootstrap env_part_down no_tables) = Some RuntimeError"
    by (rule conjunct1)
  from s obtain cs ts where
    cs: "list_all2 (stored_as PartCategory) (instances_of env_part_down PartCategory) cs"
    and ts: "list_all2 (stored_as Theme) (instances_of env_part_down Theme) ts"
    and t: "\<forall>k. tables (snd (bootstrap env_part_down no_tables)) k =
                      Some (rows_before no_tables k
                            @ (if k = PartCategory then cs else if k = Theme then ts else []))"
    by blast
  have cs': "cs = [[(''id'', VInt 1), (''name'', VStr ''Baseplates'')]]"
    using cs by (auto simp: part_down_instances list_all2_Cons1 stored_as_explicit)
  have ts': "ts = [[(''id'', VInt 1), (''name'', VStr ''Technic''), (''parent_id'', VNone)]]"
    using ts by (auto simp: part_down_instances list_all2_Cons1 stored_as_explicit)
  have r: "\<And>k. rows_before no_tables k = []" by (simp add: rows_before_def no_tables_def)
  from ft download_part_down(3) f show ?thesis
    by (simp add: t r cs' ts')
qed

text \<open>
  C4 as stated fails: on a destination whose table of \<^verbatim>\<open>Part\<close> holds a row, as an
  earlier run left it, the download of \<^verbatim>\<open>Part\<close> fails and the run ends reporting it,
  yet \<^verbatim>\<open>Part\<close> is not absent: the schema step has kept the table and its row.
\<close>

theorem part_not_absent_counterexample:
  "db_old_part Part = Some [part_row_old] \<and>
   download_instances env_part_down Part = Inl RuntimeError \<and>
   Fetch Part \<in> set (trace (snd (bootstrap env_part_down db_old_part))) \<and>
   fst (bootstrap env_part_down db_old_part) = Some RuntimeError \<and>
   tables (snd (bootstrap env_part_down db_old_part)) Part = Some [part_row_old]"
  by (simp add: bootstrap_def session_start_def create_all_def no_tables_def db_old_part_def
      ALL_MODELS_def download_part_down commit_def session_add_def insert_row_def assign_pk_def
      pk_of_def pk_columns_def Field_def close_def bindable_def in_int64_def)

section \<open>Running \<^verbatim>\<open>bootstrap\<close> a second time\<close>

lemma no_rebuild: "\<exists>added. tables (snd (bootstrap E db)) k = Some (rows_before db k @ added)"
proof -
  from bootstrap_run [of E db] show ?thesis
  proof (elim exE conjE)
    fix loaded rest
    assume d7: "\<forall>k \<in> set loaded. download_instances E k = Inr (instances_of E k) \<and>
        (\<exists>rows'. insert_rows E k (rows_before db k) (instances_of E k) = Inr rows' \<and>
           tables (snd (bootstrap E db)) k = Some rows')"
      and d8: "\<forall>k. k \<notin> set loaded \<longrightarrow> tables (snd (bootstrap E db)) k = Some (rows_before db k)"
    show ?thesis
    proof (cases "k \<in> set loaded")
      case True
      with d7 obtain rows' where
        "insert_rows E k (rows_before db k) (instances_of E k) = Inr rows'"
        "tables (snd (bootstrap E db)) k = Some rows'"
        by blast
      from committed_rows [OF this] show ?thesis by blast
    next
      case False
      with d8 have "tables (snd (bootstrap E db)) k = Some (rows_before db k @ [])" by simp
      then show ?thesis by (rule exI)
    qed
  qed
qed

lemma earlier_class:
  assumes "loaded1 @ rest1 = loaded2 @ k # rest2" and "m \<in> set loaded1" and "m \<notin> set loaded2"
  shows "k \<in> set loaded1"
  using assms by (auto simp: append_eq_append_conv2 append_eq_Cons_conv)

lemma rerun_conflict:
  assumes cm: "Commit m \<in> set (trace (snd (bootstrap E db)))"
    and x: "x \<in> set (instances_of E m)" and ex: "VNone \<notin> set (pk_of m x)"
  shows "x \<in> set (rows_before (tables (snd (bootstrap E db))) m) \<and>
         (\<exists>e. fst (bootstrap E (tables (snd (bootstrap E db)))) = Some e \<and>
              (e = IntegrityError \<or> e = OperationalError)) \<and>
         Commit m \<notin> set (trace (snd (bootstrap E (tables (snd (bootstrap E db)))))) \<and>
         tables (snd (bootstrap E (tables (snd (bootstrap E db))))) m
           = tables (snd (bootstrap E db)) m"
proof -
  define db1 where "db1 = tables (snd (bootstrap E db))"
  from bootstrap_run [of E db] show ?thesis
  proof (elim exE conjE)
    fix loaded1 rest1
    assume d1: "ALL_MODELS = loaded1 @ rest1"
      and d5: "trace (snd (bootstrap E db)) =
         CreateAll # concat (map (unit_of_work E) loaded1)
           @ (case rest1 of [] \<Rightarrow> [] | m # _ \<Rightarrow> aborted_work E m)"
      and d7: "\<forall>k \<in> set loaded1. download_instances E k = Inr (instances_of E k) \<and>
        (\<exists>rows'. insert_rows E k (rows_before db k) (instances_of E k) = Inr rows' \<and>
           tables (snd (bootstrap E db)) k = Some rows')"
    have m1: "m \<in> set loaded1" using cm unfolding d5 by (simp only: Commit_in_events)
    with d7 obtain rows' where
      ins_m: "insert_rows E m (rows_before db m) (instances_of E m) = Inr rows'"
      and tm: "db1 m = Some rows'"
      unfolding db1_def by blast
    have xin: "x \<in> set rows'" using insert_rows_Inr [OF ins_m] x ex by blast
    have rb: "rows_before db1 m = rows'" by (simp add: rows_before_def tm)
    have conflict: "\<exists>e. insert_rows E m rows' (instances_of E m) = Inl e"
      using x ex by (rule insert_rows_conflict) (use xin in simp)
    from bootstrap_run [of E db1] show ?thesis
    proof (elim exE conjE)
      fix loaded2 rest2
      assume e1: "ALL_MODELS = loaded2 @ rest2"
        and e5: "trace (snd (bootstrap E db1)) =
           CreateAll # concat (map (unit_of_work E) loaded2)
             @ (case rest2 of [] \<Rightarrow> [] | m # _ \<Rightarrow> aborted_work E m)"
        and e6: "\<forall>m rest'. rest2 = m # rest' \<longrightarrow>
          fst (bootstrap E db1) = run_error E m (rows_before db1 m) \<and>
          run_error E m (rows_before db1 m) \<noteq> None"
        and e7: "\<forall>k \<in> set loaded2. download_instances E k = Inr (instances_of E k) \<and>
          (\<exists>rows'. insert_rows E k (rows_before db1 k) (instances_of E k) = Inr rows' \<and>
             tables (snd (bootstrap E db1)) k = Some rows')"
        and e8: "\<forall>k. k \<notin> set loaded2 \<longrightarrow>
                   tables (snd (bootstrap E db1)) k = Some (rows_before db1 k)"
      have nl: "m \<notin> set loaded2"
      proof
        assume "m \<in> set loaded2"
        with e7 obtain r where "insert_rows E m (rows_before db1 m) (instances_of E m) = Inr r"
          by blast
        with conflict show False unfolding rb by auto
      qed
      then have "m \<in> set rest2" using in_ALL_MODELS [of m] unfolding e1 by simp
      then obtain k rest2' where rest2: "rest2 = k # rest2'" by (cases rest2) auto
      have "loaded1 @ rest1 = loaded2 @ k # rest2'" using d1 e1 rest2 by simp
      then have k1: "k \<in> set loaded1" using m1 nl by (rule earlier_class)
      with d7 obtain rk where
        dl_k: "download_instances E k = Inr (instances_of E k)"
        and ins_k: "insert_rows E k (rows_before db k) (instances_of E k) = Inr rk"
        by blast
      have bind: "list_all bindable (instances_of E k)"
        using insert_rows_Inr [OF ins_k] by blast
      from e6 rest2 have re: "fst (bootstrap E db1) = run_error E k (rows_before db1 k)"
        "run_error E k (rows_before db1 k) \<noteq> None"
        by blast+
      have c2: "\<exists>e. fst (bootstrap E db1) = Some e \<and> (e = IntegrityError \<or> e = OperationalError)"
      proof (cases "insert_rows E k (rows_before db1 k) (instances_of E k)")
        case (Inl e)
        from insert_rows_Inl [OF Inl bind] have "e = IntegrityError \<or> e = OperationalError" .
        moreover have "fst (bootstrap E db1) = Some e"
          unfolding re(1) by (simp add: run_error_def dl_k Inl)
        ultimately show ?thesis by blast
      next
        case (Inr r)
        with re(2) show ?thesis by (simp add: run_error_def dl_k)
      qed
      have c3: "Commit m \<notin> set (trace (snd (bootstrap E db1)))"
        unfolding e5 using nl by (simp only: Commit_in_events not_False_eq_True)
      have c4: "tables (snd (bootstrap E db1)) m = db1 m"
        using e8 nl by (simp add: rb tm)
      have c1: "x \<in> set (rows_before db1 m)" using xin by (simp add: rb)
      from c1 c2 c3 c4 show ?thesis unfolding db1_def by (intro conjI)
    qed
  qed
qed

text \<open>
  C6, as the code has it. The schema step keeps every table that exists, with its rows,
  so a run is no rebuild: whatever the destination and the sources, every table holds at
  the end the rows it held before the run, in their order, followed by those the run
  added. So after a run, complete or not, that has committed a class \<open>m\<close> whose source
  has an instance \<open>x\<close> carrying its primary key, \<open>x\<close> is a row of the table of \<open>m\<close>,
  and a second run with the same sources on the destination the first one left fails:
  it raises an \<open>IntegrityError\<close> (or an \<open>OperationalError\<close>, when the database has no
  row number left for an earlier class), does not commit \<open>m\<close>, and leaves the table of
  \<open>m\<close> as the first run left it.
\<close>

theorem rerun_fails:
  "(\<forall>k. \<exists>added. tables (snd (bootstrap E db)) k = Some (rows_before db k @ added)) \<and>
   (Commit m \<in> set (trace (snd (bootstrap E db))) \<and> x \<in> set (instances_of E m) \<and>
    VNone \<notin> set (pk_of m x) \<longrightarrow>
      x \<in> set (rows_before (tables (snd (bootstrap E db))) m) \<and>
      (\<exists>e. fst (bootstrap E (tables (snd (bootstrap E db)))) = Some e \<and>
           (e = IntegrityError \<or> e = OperationalError)) \<and>
      Commit m \<notin> set (trace (snd (bootstrap E (tables (snd (bootstrap E db)))))) \<and>
      tables (snd (bootstrap E (tables (snd (bootstrap E db))))) m
        = tables (snd (bootstrap E db)) m)"
proof (intro conjI allI impI)
  fix k
  show "\<exists>added. tables (snd (bootstrap E db)) k = Some (rows_before db k @ added)"
    by (rule no_rebuild)
next
  assume a: "Commit m \<in> set (trace (snd (bootstrap E db))) \<and> x \<in> set (instances_of E m) \<and>
             VNone \<notin> set (pk_of m x)"
  then have a1: "Commit m \<in> set (trace (snd (bootstrap E db)))"
    and a2: "x \<in> set (instances_of E m)" and a3: "VNone \<notin> set (pk_of m x)"
    by blast+
  note r = rerun_conflict [OF a1 a2 a3]
  show "x \<in> set (rows_before (tables (snd (bootstrap E db))) m)"
    by (rule r [THEN conjunct1])
  show "\<exists>e. fst (bootstrap E (tables (snd (bootstrap E db)))) = Some e \<and>
           (e = IntegrityError \<or> e = OperationalError)"
    by (rule r [THEN conjunct2, THEN conjunct1])
  show "Commit m \<notin> set (trace (snd (bootstrap E (tables (snd (bootstrap E db))))))"
    by (rule r [THEN conjunct2, THEN conjunct2, THEN conjunct1])
  show "tables (snd (bootstrap E (tables (snd (bootstrap E db))))) m
        = tables (snd (bootstrap E db)) m"
    by (rule r [THEN conjunct2, THEN conjunct2, THEN conjunct2])
qed

lemma part_down_first_run:
  "fst (bootstrap env_part_down no_tables) = Some RuntimeError"
  "tables (snd (bootstrap env_part_down no_tables)) PartCategory
     = Some [[(''id'', VInt 1), (''name'', VStr ''Baseplates'')]]"
  by (simp_all add: bootstrap_def session_start_def create_all_def no_tables_def ALL_MODELS_def
      download_part_down commit_def session_add_def insert_row_def assign_pk_def pk_of_def
      pk_columns_def Field_def close_def bindable_def in_int64_def)

lemma part_down_second_run:
  "fst (bootstrap env_part_down (tables (snd (bootstrap env_part_down no_tables))))
     = Some IntegrityError"
  by (simp add: bootstrap_def session_start_def create_all_def no_tables_def ALL_MODELS_def
      download_part_down commit_def session_add_def insert_row_def assign_pk_def pk_of_def
      pk_columns_def Field_def close_def bindable_def in_int64_def)

theorem rerun_fails_witness:
  "fst (bootstrap env_part_down no_tables) = Some RuntimeError \<and>
   Commit PartCategory \<in> set (trace (snd (bootstrap env_part_down no_tables))) \<and>
   [(''id'', VInt 1), (''name'', VStr ''Baseplates'')]
     \<in> set (instances_of env_part_down PartCategory) \<and>
   tables (snd (bootstrap env_part_down no_tables)) PartCategory
     = Some [[(''id'', VInt 1), (''name'', VStr ''Baseplates'')]] \<and>
   fst (bootstrap env_part_down (tables (snd (bootstrap env_part_down no_tables))))
     = Some IntegrityError \<and>
   tables (snd (bootstrap env_part_down (tables (snd (bootstrap env_part_down no_tables)))))
     PartCategory
     = Some [[(''id'', VInt 1), (''name'', VStr ''Baseplates'')]]"
proof -
  have cm: "Commit PartCategory \<in> set (trace (snd (bootstrap env_part_down no_tables)))"
    by (simp add: part_down_run)
  have i: "[(''id'', VInt 1), (''name'', VStr ''Baseplates'')]
     \<in> set (instances_of env_part_down PartCategory)"
    by (simp add: part_down_instances(1))
  have "[(''id'', VInt 1), (''name'', VStr ''Baseplates'')]
      \<in> set (rows_before (tables (snd (bootstrap env_part_down no_tables))) PartCategory) \<and>
      (\<exists>e. fst (bootstrap env_part_down (tables (snd (bootstrap env_part_down no_tables))))
             = Some e \<and> (e = IntegrityError \<or> e = OperationalError)) \<and>
      Commit PartCategory \<notin> set (trace (snd (bootstrap env_part_down
          (tables (snd (bootstrap env_part_down no_tables)))))) \<and>
      tables (snd (bootstrap env_part_down (tables (snd (bootstrap env_part_down no_tables)))))
        PartCategory
        = tables (snd (bootstrap env_part_down no_tables)) PartCategory"
    by (rule rerun_fails [where E = env_part_down and m = PartCategory and db = no_tables
          and x = "[(''id'', VInt 1), (''name'', VStr ''Baseplates'')]", THEN conjunct2, THEN mp])
       (intro conjI cm i part_down_instances(3))
  then have "tables (snd (bootstrap env_part_down (tables (snd (bootstrap env_part_down no_tables)))))
        PartCategory
        = Some [[(''id'', VInt 1), (''name'', VStr ''Baseplates'')]]"
    by (simp only: part_down_first_run(2))
  with part_down_first_run cm i part_down_second_run show ?thesis by (intro conjI)
qed

lemma catalog_committed:
  "Commit PartCategory \<in> set (trace (snd (bootstrap env_catalog no_tables)))"
  by (simp add: bootstrap_def session_start_def create_all_def no_tables_def ALL_MODELS_def
      download_catalog commit_def session_add_def insert_row_def assign_pk_def pk_of_def
      pk_columns_def Field_def close_def bindable_def in_int64_def)

text \<open>
  C6 as stated fails: on the small catalog the first run succeeds and the second run, on
  the destination the first one left, raises.
\<close>

theorem rerun_counterexample:
  "fst (bootstrap env_catalog no_tables) = None \<and>
   fst (bootstrap env_catalog (tables (snd (bootstrap env_catalog no_tables)))) \<noteq> None"
proof -
  have "[(''id'', VInt 1), (''name'', VStr ''Baseplates'')] \<in> set (instances_of env_catalog PartCategory)"
    by (simp add: catalog_category(1))
  from rerun_conflict [OF catalog_committed this catalog_category(2)]
  have "\<exists>e. fst (bootstrap env_catalog (tables (snd (bootstrap env_catalog no_tables)))) = Some e \<and>
              (e = IntegrityError \<or> e = OperationalError)"
    by (rule conjunct2 [THEN conjunct1])
  then show ?thesis using bootstrap_catalog_ok by auto
qed


end
